theory Spec2Isabelle
  imports Complex_Main "HOL-Library.List_Lexorder" "HOL-Library.Multiset"
begin

section \<open>JavaScript values and the coercions the handlers use\<close>

text \<open>
  \<^verbatim>\<open>src/server.js\<close> holds two variants of the same Express server: one keeps users,
  sessions and orders in a JSON file (\<^verbatim>\<open>auth-db.json\<close>), the other in SQLite
  (\<^verbatim>\<open>app.db\<close>). Both read the request body as parsed JSON and coerce every field with
  \<^verbatim>\<open>String(x || "")\<close>, \<^verbatim>\<open>.trim()\<close>, \<^verbatim>\<open>.toLowerCase()\<close> and \<^verbatim>\<open>Number(x || 0)\<close>.

  A JavaScript string is a list of code units, each a natural number. A number is NaN,
  an infinity, or a finite value kept as an exact rational: the handlers never do
  arithmetic on a number, they only test, convert and store it.
\<close>

type_synonym jsstring = "nat list"

definition ascii :: "string \<Rightarrow> jsstring" where
  "ascii s = map of_char s"

datatype jsnum = NaN | PosInf | NegInf | Fin rat

datatype jsval =
    JUndefined
  | JNull
  | JBool bool
  | JNum jsnum
  | JStr jsstring
  | JArr "jsval list"
  | JObj "(jsstring \<times> jsval) list"

datatype js_error = TypeError | SqliteConstraint

text \<open>
  The library functions whose results the source text does not determine are taken as
  parameters: the conversions between numbers and strings, \<^verbatim>\<open>String.prototype.toLowerCase\<close>
  and the two functions of \<^verbatim>\<open>bcryptjs\<close> (\<^verbatim>\<open>hash\<close> with its cost factor and the salt it
  draws, \<^verbatim>\<open>compare\<close>).
\<close>

record builtins =
  num_to_string :: "jsnum \<Rightarrow> jsstring"
  string_to_num :: "jsstring \<Rightarrow> jsnum"
  toLowerCase :: "jsstring \<Rightarrow> jsstring"
  bcrypt_hash :: "jsstring \<Rightarrow> nat \<Rightarrow> jsstring \<Rightarrow> jsstring"
  bcrypt_compare :: "jsstring \<Rightarrow> jsstring \<Rightarrow> bool"

text \<open>
  What one request reads from the random source and the clock:
  \<^verbatim>\<open>crypto.randomUUID()\<close> (twice in register), the salt of \<^verbatim>\<open>bcrypt.hash\<close>,
  \<^verbatim>\<open>new Date().toISOString()\<close> (twice in register) and \<^verbatim>\<open>Date.now()\<close>.
\<close>

record env =
  randomUUID1 :: jsstring
  randomUUID2 :: jsstring
  bcrypt_salt :: jsstring
  toISOString1 :: jsstring
  toISOString2 :: jsstring
  Date_now :: nat

definition and_then :: "js_error + 'a \<Rightarrow> ('a \<Rightarrow> js_error + 'b) \<Rightarrow> js_error + 'b" where
  "and_then r f = (case r of Inl e \<Rightarrow> Inl e | Inr x \<Rightarrow> f x)"

fun sequence :: "(js_error + 'a) list \<Rightarrow> js_error + 'a list" where
  "sequence [] = Inr []"
| "sequence (r # rs) =
     (case r of
        Inl e \<Rightarrow> Inl e
      | Inr x \<Rightarrow> (case sequence rs of Inl e \<Rightarrow> Inl e | Inr xs \<Rightarrow> Inr (x # xs)))"

text \<open>Truthiness, as \<^verbatim>\<open>!x\<close> and \<^verbatim>\<open>x || d\<close> test it.\<close>

fun truthy :: "jsval \<Rightarrow> bool" where
  "truthy JUndefined = False"
| "truthy JNull = False"
| "truthy (JBool b) = b"
| "truthy (JNum n) = (n \<noteq> NaN \<and> n \<noteq> Fin 0)"
| "truthy (JStr s) = (s \<noteq> [])"
| "truthy (JArr xs) = True"
| "truthy (JObj kvs) = True"

definition or_else :: "jsval \<Rightarrow> jsval \<Rightarrow> jsval" where
  "or_else x d = (if truthy x then x else d)"

text \<open>
  Property reads. \<^verbatim>\<open>req.body?.name\<close> is undefined on null and undefined;
  \<^verbatim>\<open>item.id\<close> throws a TypeError there. The handlers read only the properties
  customer, items, name, email, password, phone, address, city, state, pinCode, note,
  id, title, category and qty; none of them is inherited from a prototype, so a value
  that is not an object has none of them.
\<close>

fun opt_prop :: "jsval \<Rightarrow> jsstring \<Rightarrow> jsval" where
  "opt_prop (JObj kvs) k = (case map_of kvs k of Some v \<Rightarrow> v | None \<Rightarrow> JUndefined)"
| "opt_prop v k = JUndefined"

fun get_prop :: "jsval \<Rightarrow> jsstring \<Rightarrow> js_error + jsval" where
  "get_prop JUndefined k = Inl TypeError"
| "get_prop JNull k = Inl TypeError"
| "get_prop v k = Inr (opt_prop v k)"

fun join_comma :: "jsstring list \<Rightarrow> jsstring" where
  "join_comma [] = []"
| "join_comma [s] = s"
| "join_comma (s # t # ss) = s @ ascii '','' @ join_comma (t # ss)"

text \<open>
  \<^verbatim>\<open>String(v)\<close>. An array joins the strings of its elements with commas, null and
  undefined elements giving the empty string. A plain object gives
  \<^verbatim>\<open>[object Object]\<close>, unless it has an own property \<^verbatim>\<open>toString\<close>: parsed JSON holds
  no function, so the conversion finds nothing to call and throws a TypeError.
\<close>

primrec ToString :: "builtins \<Rightarrow> jsval \<Rightarrow> js_error + jsstring" where
  "ToString B JUndefined = Inr (ascii ''undefined'')"
| "ToString B JNull = Inr (ascii ''null'')"
| "ToString B (JBool b) = Inr (if b then ascii ''true'' else ascii ''false'')"
| "ToString B (JNum n) = Inr (num_to_string B n)"
| "ToString B (JStr s) = Inr s"
| "ToString B (JArr xs) =
     (case sequence (map (\<lambda>x. if x = JNull \<or> x = JUndefined then Inr [] else ToString B x) xs) of
        Inl e \<Rightarrow> Inl e
      | Inr ss \<Rightarrow> Inr (join_comma ss))"
| "ToString B (JObj kvs) =
     (if ascii ''toString'' \<in> fst ` set kvs then Inl TypeError
      else Inr (ascii ''[object Object]''))"

text \<open>\<^verbatim>\<open>Number(v)\<close>: arrays and objects go through their string.\<close>

fun ToNumber :: "builtins \<Rightarrow> jsval \<Rightarrow> js_error + jsnum" where
  "ToNumber B JUndefined = Inr NaN"
| "ToNumber B JNull = Inr (Fin 0)"
| "ToNumber B (JBool b) = Inr (if b then Fin 1 else Fin 0)"
| "ToNumber B (JNum n) = Inr n"
| "ToNumber B (JStr s) = Inr (string_to_num B s)"
| "ToNumber B v = and_then (ToString B v) (\<lambda>s. Inr (string_to_num B s))"

text \<open>\<^verbatim>\<open>String.prototype.trim\<close> strips the white space and line terminators of ECMAScript.\<close>

definition js_whitespace :: "nat \<Rightarrow> bool" where
  "js_whitespace c \<longleftrightarrow>
     c \<in> {9, 10, 11, 12, 13, 32, 160, 5760, 8232, 8233, 8239, 8287, 12288, 65279}
     \<or> (8192 \<le> c \<and> c \<le> 8202)"

definition trim :: "jsstring \<Rightarrow> jsstring" where
  "trim s = rev (dropWhile js_whitespace (rev (dropWhile js_whitespace s)))"

text \<open>\<^verbatim>\<open>String(obj.k || "")\<close> on a value that is not null, and \<^verbatim>\<open>String(obj?.k || "")\<close>.\<close>

definition str_field :: "builtins \<Rightarrow> jsval \<Rightarrow> string \<Rightarrow> js_error + jsstring" where
  "str_field B v k = ToString B (or_else (opt_prop v (ascii k)) (JStr []))"

text \<open>
  \<^verbatim>\<open>JSON.stringify\<close> writes NaN and the infinities as null, so a number that has
  been through \<^verbatim>\<open>res.json\<close> or the JSON file is a finite value or null (\<open>None\<close>).
\<close>

fun JSON_number :: "jsnum \<Rightarrow> rat option" where
  "JSON_number (Fin r) = Some r"
| "JSON_number n = None"

section \<open>Responses\<close>

record user_view =
  uv_id :: jsstring
  uv_name :: jsstring
  uv_email :: jsstring
  uv_createdAt :: jsstring

record customer =
  cust_name :: jsstring
  cust_phone :: jsstring
  cust_email :: jsstring
  cust_address :: jsstring
  cust_city :: jsstring
  cust_state :: jsstring
  cust_pinCode :: jsstring
  cust_note :: jsstring

text \<open>The item object \<^verbatim>\<open>{id, title, category, qty}\<close> in memory, and as JSON.\<close>

record new_item =
  ni_id :: jsstring
  ni_title :: jsstring
  ni_category :: jsstring
  ni_qty :: jsnum

record item =
  item_id :: jsstring
  item_title :: jsstring
  item_category :: jsstring
  item_qty :: "rat option"

record order_view =
  ov_id :: jsstring
  ov_createdAt :: jsstring
  ov_customer :: customer
  ov_items :: "item list"

datatype body =
    Error string
  | User user_view
  | Order order_view
  | Orders "order_view list"
  | Ok

datatype cookie_effect = NoCookie | SetCookie jsstring | ClearCookie

record response =
  status :: nat
  body :: body
  cookie :: cookie_effect

definition reply :: "nat \<Rightarrow> body \<Rightarrow> response" where
  "reply code b = \<lparr>status = code, body = b, cookie = NoCookie\<rparr>"

definition internal_error :: response where
  "internal_error = reply 500 (Error ''internal server error'')"

definition not_authenticated :: response where
  "not_authenticated = reply 401 (Error ''not authenticated'')"

definition invalid_credentials :: response where
  "invalid_credentials = reply 401 (Error ''invalid credentials'')"

definition JSON_item :: "new_item \<Rightarrow> item" where
  "JSON_item i =
     \<lparr>item_id = ni_id i, item_title = ni_title i, item_category = ni_category i,
      item_qty = JSON_number (ni_qty i)\<rparr>"

text \<open>
  The customer snapshot and the item object that both variants build from the request:
  \<^verbatim>\<open>String(customer.name || "").trim()\<close> and so on, \<^verbatim>\<open>Number(item.qty || 0)\<close>.
\<close>

definition customer_snapshot :: "builtins \<Rightarrow> jsval \<Rightarrow> js_error + customer" where
  "customer_snapshot B c =
     and_then (str_field B c ''name'') (\<lambda>n.
     and_then (str_field B c ''phone'') (\<lambda>p.
     and_then (str_field B c ''email'') (\<lambda>e.
     and_then (str_field B c ''address'') (\<lambda>a.
     and_then (str_field B c ''city'') (\<lambda>ci.
     and_then (str_field B c ''state'') (\<lambda>s.
     and_then (str_field B c ''pinCode'') (\<lambda>pc.
     and_then (str_field B c ''note'') (\<lambda>nt.
       Inr \<lparr>cust_name = trim n, cust_phone = trim p, cust_email = trim e,
            cust_address = trim a, cust_city = trim ci, cust_state = trim s,
            cust_pinCode = trim pc, cust_note = trim nt\<rparr>))))))))"

definition item_string :: "builtins \<Rightarrow> jsval \<Rightarrow> string \<Rightarrow> js_error + jsstring" where
  "item_string B it k =
     and_then (get_prop it (ascii k)) (\<lambda>v. ToString B (or_else v (JStr [])))"

definition item_number :: "builtins \<Rightarrow> jsval \<Rightarrow> js_error + jsnum" where
  "item_number B it =
     and_then (get_prop it (ascii ''qty'')) (\<lambda>v. ToNumber B (or_else v (JNum (Fin 0))))"

definition order_item :: "builtins \<Rightarrow> jsval \<Rightarrow> js_error + new_item" where
  "order_item B it =
     and_then (item_string B it ''id'') (\<lambda>i.
     and_then (item_string B it ''title'') (\<lambda>t.
     and_then (item_string B it ''category'') (\<lambda>c.
     and_then (item_number B it) (\<lambda>q.
       Inr \<lparr>ni_id = i, ni_title = t, ni_category = c, ni_qty = q\<rparr>))))"

definition request_customer :: "jsval \<Rightarrow> jsval" where
  "request_customer req_body = or_else (opt_prop req_body (ascii ''customer'')) (JObj [])"

definition request_items :: "jsval \<Rightarrow> jsval list" where
  "request_items req_body =
     (case opt_prop req_body (ascii ''items'') of JArr xs \<Rightarrow> xs | _ \<Rightarrow> [])"

definition customer_missing :: "jsval \<Rightarrow> bool" where
  "customer_missing c \<longleftrightarrow>
     \<not> truthy (opt_prop c (ascii ''name''))
     \<or> \<not> truthy (opt_prop c (ascii ''phone''))
     \<or> \<not> truthy (opt_prop c (ascii ''address''))"

definition order_id_of :: "builtins \<Rightarrow> nat \<Rightarrow> jsstring" where
  "order_id_of B ms = ascii ''DDD-'' @ num_to_string B (Fin (of_nat ms))"

text \<open>
  The fields of register and login, the same lines in both variants: the name and the
  email are trimmed, the email is lower-cased, the password is taken as it is.
\<close>

definition register_fields :: "builtins \<Rightarrow> jsval \<Rightarrow> js_error + jsstring \<times> jsstring \<times> jsstring" where
  "register_fields B req_body =
     and_then (str_field B req_body ''name'') (\<lambda>n.
     and_then (str_field B req_body ''email'') (\<lambda>e.
     and_then (str_field B req_body ''password'') (\<lambda>p.
       Inr (trim n, toLowerCase B (trim e), p))))"

definition login_fields :: "builtins \<Rightarrow> jsval \<Rightarrow> js_error + jsstring \<times> jsstring" where
  "login_fields B req_body =
     and_then (str_field B req_body ''email'') (\<lambda>e.
     and_then (str_field B req_body ''password'') (\<lambda>p.
       Inr (toLowerCase B (trim e), p)))"

section \<open>The JSON-file variant\<close>

record user =
  user_id :: jsstring
  user_name :: jsstring
  user_email :: jsstring
  user_passwordHash :: jsstring
  user_createdAt :: jsstring

record session =
  session_userId :: jsstring
  session_createdAt :: jsstring

record order =
  order_id :: jsstring
  order_createdAt :: jsstring
  order_userId :: jsstring
  order_customer :: customer
  order_items :: "item list"

record json_db =
  users :: "user list"
  sessions :: "jsstring \<rightharpoonup> session"
  orders :: "order list"

definition sanitizeUser :: "user \<Rightarrow> user_view" where
  "sanitizeUser u =
     \<lparr>uv_id = user_id u, uv_name = user_name u, uv_email = user_email u,
      uv_createdAt = user_createdAt u\<rparr>"

definition sanitizeOrder :: "order \<Rightarrow> order_view" where
  "sanitizeOrder ord =
     \<lparr>ov_id = order_id ord, ov_createdAt = order_createdAt ord,
      ov_customer = order_customer ord, ov_items = order_items ord\<rparr>"

text \<open>
  The session cookie \<^verbatim>\<open>ddd_sid\<close> is a string, or absent. \<^verbatim>\<open>db.sessions[sessionId]\<close>
  reads a property of a plain object: an own property (a stored session), or one the
  object inherits from \<^verbatim>\<open>Object.prototype\<close>, which is an object or function and has no
  \<^verbatim>\<open>userId\<close>. Each handler reads the file, answers and writes it back before the next
  request is taken.
\<close>

datatype 'a lookup = Absent | Own 'a | Inherited

definition object_prototype_keys :: "jsstring list" where
  "object_prototype_keys = map ascii
     [''constructor'', ''__defineGetter__'', ''__defineSetter__'', ''hasOwnProperty'',
      ''__lookupGetter__'', ''__lookupSetter__'', ''isPrototypeOf'',
      ''propertyIsEnumerable'', ''toString'', ''valueOf'', ''__proto__'',
      ''toLocaleString'']"

definition property_of :: "(jsstring \<rightharpoonup> 'a) \<Rightarrow> jsstring \<Rightarrow> 'a lookup" where
  "property_of obj k =
     (case obj k of
        Some v \<Rightarrow> Own v
      | None \<Rightarrow> if k \<in> set object_prototype_keys then Inherited else Absent)"

fun userId_of :: "session lookup \<Rightarrow> jsstring option" where
  "userId_of (Own s) = Some (session_userId s)"
| "userId_of l = None"

definition json_getUserFromSession :: "json_db \<Rightarrow> jsstring option \<Rightarrow> user option" where
  "json_getUserFromSession db sid_cookie =
     (case sid_cookie of
        None \<Rightarrow> None
      | Some sessionId \<Rightarrow>
          if sessionId = [] then None
          else let session = property_of (sessions db) sessionId in
            if session = Absent then None
            else find (\<lambda>u. Some (user_id u) = userId_of session) (users db))"

definition json_post_auth_register ::
    "builtins \<Rightarrow> env \<Rightarrow> json_db \<Rightarrow> jsval \<Rightarrow> response \<times> json_db" where
  "json_post_auth_register B E db req_body =
     (case register_fields B req_body of
        Inl e \<Rightarrow> (internal_error, db)
      | Inr (name, email, password) \<Rightarrow>
          if name = [] \<or> email = [] \<or> password = [] then
            (reply 400 (Error ''name, email, and password are required''), db)
          else if \<exists>u \<in> set (users db). user_email u = email then
            (reply 409 (Error ''email already registered''), db)
          else
            let u = \<lparr>user_id = randomUUID1 E, user_name = name, user_email = email,
                     user_passwordHash = bcrypt_hash B password 12 (bcrypt_salt E),
                     user_createdAt = toISOString1 E\<rparr>;
                sessionId = randomUUID2 E;
                db1 = db\<lparr>users := users db @ [u]\<rparr>;
                db2 = db1\<lparr>sessions := (sessions db1)(sessionId \<mapsto>
                        \<lparr>session_userId = user_id u, session_createdAt = toISOString2 E\<rparr>)\<rparr>
            in (\<lparr>status = 201, body = User (sanitizeUser u), cookie = SetCookie sessionId\<rparr>,
                db2))"

definition json_post_auth_login ::
    "builtins \<Rightarrow> env \<Rightarrow> json_db \<Rightarrow> jsval \<Rightarrow> response \<times> json_db" where
  "json_post_auth_login B E db req_body =
     (case login_fields B req_body of
        Inl e \<Rightarrow> (internal_error, db)
      | Inr (email, password) \<Rightarrow>
          if email = [] \<or> password = [] then
            (reply 400 (Error ''email and password are required''), db)
          else
            (case find (\<lambda>entry. user_email entry = email) (users db) of
               None \<Rightarrow> (invalid_credentials, db)
             | Some u \<Rightarrow>
                 if \<not> bcrypt_compare B password (user_passwordHash u) then
                   (invalid_credentials, db)
                 else
                   let sessionId = randomUUID1 E;
                       db1 = db\<lparr>sessions := (sessions db)(sessionId \<mapsto>
                               \<lparr>session_userId = user_id u,
                                session_createdAt = toISOString1 E\<rparr>)\<rparr>
                   in (\<lparr>status = 200, body = User (sanitizeUser u),
                        cookie = SetCookie sessionId\<rparr>, db1)))"

definition json_post_auth_logout :: "json_db \<Rightarrow> jsstring option \<Rightarrow> response \<times> json_db" where
  "json_post_auth_logout db sid_cookie =
     (case sid_cookie of
        None \<Rightarrow> (\<lparr>status = 200, body = Ok, cookie = ClearCookie\<rparr>, db)
      | Some sessionId \<Rightarrow>
          if sessionId = [] then (\<lparr>status = 200, body = Ok, cookie = ClearCookie\<rparr>, db)
          else (\<lparr>status = 200, body = Ok, cookie = ClearCookie\<rparr>,
                db\<lparr>sessions := (sessions db)(sessionId := None)\<rparr>))"

definition json_get_auth_me :: "json_db \<Rightarrow> jsstring option \<Rightarrow> response" where
  "json_get_auth_me db sid_cookie =
     (case json_getUserFromSession db sid_cookie of
        None \<Rightarrow> not_authenticated
      | Some u \<Rightarrow> reply 200 (User (sanitizeUser u)))"

text \<open>
  \<^verbatim>\<open>POST /orders\<close>. The order object is built in memory, pushed and written with
  \<^verbatim>\<open>JSON.stringify\<close>, and returned with \<^verbatim>\<open>res.json\<close>: stored and returned items are
  the JSON of the items built. Any exception (a null item, a value that has no string)
  reaches the \<^verbatim>\<open>catch\<close> before \<^verbatim>\<open>writeDb\<close>.
\<close>

definition json_post_orders ::
    "builtins \<Rightarrow> env \<Rightarrow> json_db \<Rightarrow> jsstring option \<Rightarrow> jsval \<Rightarrow> response \<times> json_db" where
  "json_post_orders B E db sid_cookie req_body =
     (case sid_cookie of
        None \<Rightarrow> (not_authenticated, db)
      | Some sessionId \<Rightarrow>
          if sessionId = [] then (not_authenticated, db)
          else let session = property_of (sessions db) sessionId in
            if session = Absent then (not_authenticated, db)
            else
              (case find (\<lambda>entry. Some (user_id entry) = userId_of session) (users db) of
                 None \<Rightarrow> (not_authenticated, db)
               | Some u \<Rightarrow>
                   let customer = request_customer req_body;
                       items = request_items req_body
                   in
                     if customer_missing customer then
                       (reply 400 (Error ''customer name, phone, and address are required''), db)
                     else if items = [] then
                       (reply 400 (Error ''at least one order item is required''), db)
                     else
                       (case and_then (customer_snapshot B customer) (\<lambda>cust.
                             and_then (sequence (map (order_item B) items)) (\<lambda>its.
                               Inr \<lparr>order_id = order_id_of B (Date_now E),
                                    order_createdAt = toISOString1 E,
                                    order_userId = user_id u,
                                    order_customer = cust,
                                    order_items = map JSON_item its\<rparr>)) of
                          Inl e \<Rightarrow> (internal_error, db)
                        | Inr ord \<Rightarrow>
                            (reply 201 (Order (sanitizeOrder ord)),
                             db\<lparr>orders := orders db @ [ord]\<rparr>))))"

definition json_get_orders_me :: "json_db \<Rightarrow> jsstring option \<Rightarrow> response" where
  "json_get_orders_me db sid_cookie =
     (case sid_cookie of
        None \<Rightarrow> not_authenticated
      | Some sessionId \<Rightarrow>
          if sessionId = [] then not_authenticated
          else let session = property_of (sessions db) sessionId in
            if session = Absent then not_authenticated
            else
              reply 200 (Orders (map sanitizeOrder
                (filter (\<lambda>ord. Some (order_userId ord) = userId_of session) (orders db)))))"

section \<open>The SQLite variant\<close>

text \<open>
  The four tables of \<^verbatim>\<open>initDb\<close>, each a list of rows in insertion order. The users table
  holds \<^typ>\<open>user\<close> rows. The eight customer columns of an order row are kept together
  as a \<^typ>\<open>customer\<close>. \<open>item_seq\<close> is the counter that AUTOINCREMENT keeps for
  \<^verbatim>\<open>order_items.id\<close>.
\<close>

record session_row =
  sr_id :: jsstring
  sr_user_id :: jsstring
  sr_created_at :: jsstring

record order_row =
  or_id :: jsstring
  or_user_id :: jsstring
  or_created_at :: jsstring
  or_customer :: customer

record item_row =
  oi_id :: nat
  oi_order_id :: jsstring
  oi_product_id :: jsstring
  oi_title :: jsstring
  oi_category :: jsstring
  oi_qty :: jsnum

record sql_db =
  users_tbl :: "user list"
  sessions_tbl :: "session_row list"
  orders_tbl :: "order_row list"
  order_items_tbl :: "item_row list"
  item_seq :: nat

text \<open>
  An INSERT fails when it breaks a constraint of the schema: a PRIMARY KEY or UNIQUE
  value already present, a FOREIGN KEY without its row (\<^verbatim>\<open>PRAGMA foreign_keys = ON\<close>),
  a NULL in a NOT NULL column. The handlers bind strings everywhere except for
  \<^verbatim>\<open>qty\<close>, a number; SQLite stores a NaN as NULL, which \<^verbatim>\<open>qty INTEGER NOT NULL\<close> refuses.
\<close>

definition insert_user :: "sql_db \<Rightarrow> user \<Rightarrow> js_error + sql_db" where
  "insert_user st u =
     (if user_id u \<in> user_id ` set (users_tbl st)
         \<or> user_email u \<in> user_email ` set (users_tbl st)
      then Inl SqliteConstraint
      else Inr (st\<lparr>users_tbl := users_tbl st @ [u]\<rparr>))"

definition insert_session :: "sql_db \<Rightarrow> session_row \<Rightarrow> js_error + sql_db" where
  "insert_session st s =
     (if sr_id s \<in> sr_id ` set (sessions_tbl st)
         \<or> sr_user_id s \<notin> user_id ` set (users_tbl st)
      then Inl SqliteConstraint
      else Inr (st\<lparr>sessions_tbl := sessions_tbl st @ [s]\<rparr>))"

definition insert_order :: "sql_db \<Rightarrow> order_row \<Rightarrow> js_error + sql_db" where
  "insert_order st ord =
     (if or_id ord \<in> or_id ` set (orders_tbl st)
         \<or> or_user_id ord \<notin> user_id ` set (users_tbl st)
      then Inl SqliteConstraint
      else Inr (st\<lparr>orders_tbl := orders_tbl st @ [ord]\<rparr>))"

definition next_item_id :: "sql_db \<Rightarrow> nat" where
  "next_item_id st = Suc (fold max (map oi_id (order_items_tbl st)) (item_seq st))"

definition insert_order_item :: "sql_db \<Rightarrow> jsstring \<Rightarrow> new_item \<Rightarrow> js_error + sql_db" where
  "insert_order_item st orderId i =
     (if ni_qty i = NaN \<or> orderId \<notin> or_id ` set (orders_tbl st)
      then Inl SqliteConstraint
      else Inr (st\<lparr>order_items_tbl := order_items_tbl st @
                   [\<lparr>oi_id = next_item_id st, oi_order_id = orderId,
                     oi_product_id = ni_id i, oi_title = ni_title i,
                     oi_category = ni_category i, oi_qty = ni_qty i\<rparr>],
                 item_seq := next_item_id st\<rparr>))"

text \<open>
  \<^verbatim>\<open>getUserFromSession\<close>: the row of \<^verbatim>\<open>sessions JOIN users\<close> for this session id,
  with the four columns the query selects. Both ids are primary keys, so at most one
  session has the id and at most one user owns it.
\<close>

definition sql_getUserFromSession :: "sql_db \<Rightarrow> jsstring option \<Rightarrow> user_view option" where
  "sql_getUserFromSession st sid_cookie =
     (case sid_cookie of
        None \<Rightarrow> None
      | Some sessionId \<Rightarrow>
          if sessionId = [] then None
          else
            (case find (\<lambda>s. sr_id s = sessionId) (sessions_tbl st) of
               None \<Rightarrow> None
             | Some s \<Rightarrow>
                 map_option sanitizeUser
                   (find (\<lambda>u. user_id u = sr_user_id s) (users_tbl st))))"

text \<open>
  \<^verbatim>\<open>POST /auth/register\<close> inserts the user and then the session with two separate
  statements, outside any transaction: when the second fails the first stays.
\<close>

definition sql_post_auth_register ::
    "builtins \<Rightarrow> env \<Rightarrow> sql_db \<Rightarrow> jsval \<Rightarrow> response \<times> sql_db" where
  "sql_post_auth_register B E st req_body =
     (case register_fields B req_body of
        Inl e \<Rightarrow> (internal_error, st)
      | Inr (name, email, password) \<Rightarrow>
          if name = [] \<or> email = [] \<or> password = [] then
            (reply 400 (Error ''name, email, and password are required''), st)
          else if find (\<lambda>u. user_email u = email) (users_tbl st) \<noteq> None then
            (reply 409 (Error ''email already registered''), st)
          else
            let u = \<lparr>user_id = randomUUID1 E, user_name = name, user_email = email,
                     user_passwordHash = bcrypt_hash B password 12 (bcrypt_salt E),
                     user_createdAt = toISOString1 E\<rparr>
            in
              (case insert_user st u of
                 Inl e \<Rightarrow> (internal_error, st)
               | Inr st1 \<Rightarrow>
                   let sessionId = randomUUID2 E in
                     (case insert_session st1
                             \<lparr>sr_id = sessionId, sr_user_id = user_id u,
                              sr_created_at = toISOString2 E\<rparr> of
                        Inl e \<Rightarrow> (internal_error, st1)
                      | Inr st2 \<Rightarrow>
                          (\<lparr>status = 201, body = User (sanitizeUser u),
                            cookie = SetCookie sessionId\<rparr>, st2))))"

definition sql_post_auth_login ::
    "builtins \<Rightarrow> env \<Rightarrow> sql_db \<Rightarrow> jsval \<Rightarrow> response \<times> sql_db" where
  "sql_post_auth_login B E st req_body =
     (case login_fields B req_body of
        Inl e \<Rightarrow> (internal_error, st)
      | Inr (email, password) \<Rightarrow>
          if email = [] \<or> password = [] then
            (reply 400 (Error ''email and password are required''), st)
          else
            (case find (\<lambda>u. user_email u = email) (users_tbl st) of
               None \<Rightarrow> (invalid_credentials, st)
             | Some u \<Rightarrow>
                 if \<not> bcrypt_compare B password (user_passwordHash u) then
                   (invalid_credentials, st)
                 else
                   let sessionId = randomUUID1 E in
                     (case insert_session st
                             \<lparr>sr_id = sessionId, sr_user_id = user_id u,
                              sr_created_at = toISOString1 E\<rparr> of
                        Inl e \<Rightarrow> (internal_error, st)
                      | Inr st1 \<Rightarrow>
                          (\<lparr>status = 200, body = User (sanitizeUser u),
                            cookie = SetCookie sessionId\<rparr>, st1))))"

definition sql_post_auth_logout :: "sql_db \<Rightarrow> jsstring option \<Rightarrow> response \<times> sql_db" where
  "sql_post_auth_logout st sid_cookie =
     (\<lparr>status = 200, body = Ok, cookie = ClearCookie\<rparr>,
      (case sid_cookie of
         None \<Rightarrow> st
       | Some sessionId \<Rightarrow>
           if sessionId = [] then st
           else st\<lparr>sessions_tbl := filter (\<lambda>s. sr_id s \<noteq> sessionId) (sessions_tbl st)\<rparr>))"

definition sql_get_auth_me :: "sql_db \<Rightarrow> jsstring option \<Rightarrow> response" where
  "sql_get_auth_me st sid_cookie =
     (case sql_getUserFromSession st sid_cookie of
        None \<Rightarrow> not_authenticated
      | Some u \<Rightarrow> reply 200 (User u))"

text \<open>
  \<^verbatim>\<open>POST /orders\<close>. Between BEGIN and COMMIT the handler inserts the order row and then
  one row per item, in the order of the request; an exception (a failed INSERT, or one
  thrown while the parameters are computed) rolls back to the state before BEGIN and
  is answered with 500. After COMMIT the response is built from the request again.
\<close>

fun insert_items :: "builtins \<Rightarrow> sql_db \<Rightarrow> jsstring \<Rightarrow> jsval list \<Rightarrow> js_error + sql_db" where
  "insert_items B st orderId [] = Inr st"
| "insert_items B st orderId (it # its) =
     and_then (order_item B it) (\<lambda>i.
     and_then (insert_order_item st orderId i) (\<lambda>st1.
       insert_items B st1 orderId its))"

definition order_transaction ::
    "builtins \<Rightarrow> sql_db \<Rightarrow> jsstring \<Rightarrow> jsstring \<Rightarrow> jsstring \<Rightarrow> jsval \<Rightarrow> jsval list
      \<Rightarrow> js_error + sql_db" where
  "order_transaction B st orderId userId createdAt customer items =
     and_then (customer_snapshot B customer) (\<lambda>cust.
     and_then (insert_order st
                 \<lparr>or_id = orderId, or_user_id = userId, or_created_at = createdAt,
                  or_customer = cust\<rparr>) (\<lambda>st1.
       insert_items B st1 orderId items))"

definition sql_post_orders ::
    "builtins \<Rightarrow> env \<Rightarrow> sql_db \<Rightarrow> jsstring option \<Rightarrow> jsval \<Rightarrow> response \<times> sql_db" where
  "sql_post_orders B E st sid_cookie req_body =
     (case sql_getUserFromSession st sid_cookie of
        None \<Rightarrow> (not_authenticated, st)
      | Some u \<Rightarrow>
          let customer = request_customer req_body;
              items = request_items req_body
          in
            if customer_missing customer then
              (reply 400 (Error ''customer name, phone, and address are required''), st)
            else if items = [] then
              (reply 400 (Error ''at least one order item is required''), st)
            else
              let orderId = order_id_of B (Date_now E);
                  createdAt = toISOString1 E
              in
                (case order_transaction B st orderId (uv_id u) createdAt customer items of
                   Inl e \<Rightarrow> (internal_error, st)
                 | Inr st1 \<Rightarrow>
                     (case and_then (customer_snapshot B customer) (\<lambda>cust.
                           and_then (sequence (map (order_item B) items)) (\<lambda>its.
                             Inr \<lparr>ov_id = orderId, ov_createdAt = createdAt,
                                  ov_customer = cust, ov_items = map JSON_item its\<rparr>)) of
                        Inl e \<Rightarrow> (internal_error, st1)
                      | Inr v \<Rightarrow> (reply 201 (Order v), st1))))"

text \<open>
  \<^verbatim>\<open>GET /orders/me\<close>. The query joins each order of the user with its items
  (\<^verbatim>\<open>LEFT JOIN\<close>: an order without items gives one row whose item columns are NULL) and
  sorts by \<^verbatim>\<open>o.created_at DESC, oi.id ASC\<close>; \<^verbatim>\<open>created_at\<close> is TEXT and compares as a
  string, a NULL \<^verbatim>\<open>oi.id\<close> sorts first.
\<close>

type_synonym joined_row = "order_row \<times> item_row option"

definition left_join :: "order_row list \<Rightarrow> item_row list \<Rightarrow> joined_row list" where
  "left_join os is =
     concat (map (\<lambda>ord.
       (case filter (\<lambda>i. oi_order_id i = or_id ord) is of
          [] \<Rightarrow> [(ord, None)]
        | js \<Rightarrow> map (\<lambda>i. (ord, Some i)) js)) os)"

fun item_key_le :: "item_row option \<Rightarrow> item_row option \<Rightarrow> bool" where
  "item_key_le None j = True"
| "item_key_le (Some i) None = False"
| "item_key_le (Some i) (Some j) = (oi_id i \<le> oi_id j)"

definition row_le :: "joined_row \<Rightarrow> joined_row \<Rightarrow> bool" where
  "row_le r1 r2 \<longleftrightarrow>
     or_created_at (fst r1) > or_created_at (fst r2)
     \<or> (or_created_at (fst r1) = or_created_at (fst r2) \<and> item_key_le (snd r1) (snd r2))"

fun insert_row :: "joined_row \<Rightarrow> joined_row list \<Rightarrow> joined_row list" where
  "insert_row r [] = [r]"
| "insert_row r (x # xs) = (if row_le r x then r # x # xs else x # insert_row r xs)"

definition order_by :: "joined_row list \<Rightarrow> joined_row list" where
  "order_by rows = foldr insert_row rows []"

definition select_orders :: "sql_db \<Rightarrow> jsstring \<Rightarrow> joined_row list" where
  "select_orders st userId =
     order_by (left_join (filter (\<lambda>ord. or_user_id ord = userId) (orders_tbl st))
                         (order_items_tbl st))"

text \<open>
  The loop over the rows fills a \<^verbatim>\<open>Map\<close> from order id to order object, which keeps its
  keys in the order of their first insertion: the list of its values. A row whose
  \<^verbatim>\<open>product_id\<close> is truthy pushes an item to the order of its id.
\<close>

definition order_header :: "order_row \<Rightarrow> order_view" where
  "order_header ord =
     \<lparr>ov_id = or_id ord, ov_createdAt = or_created_at ord, ov_customer = or_customer ord,
      ov_items = []\<rparr>"

definition row_item :: "item_row \<Rightarrow> item" where
  "row_item i =
     \<lparr>item_id = oi_product_id i, item_title = oi_title i, item_category = oi_category i,
      item_qty = JSON_number (oi_qty i)\<rparr>"

definition push_item :: "jsstring \<Rightarrow> item \<Rightarrow> order_view list \<Rightarrow> order_view list" where
  "push_item orderId i m =
     map (\<lambda>v. if ov_id v = orderId then v\<lparr>ov_items := ov_items v @ [i]\<rparr> else v) m"

definition add_row :: "order_view list \<Rightarrow> joined_row \<Rightarrow> order_view list" where
  "add_row orderMap row =
     (let m1 = (if or_id (fst row) \<in> ov_id ` set orderMap then orderMap
                else orderMap @ [order_header (fst row)])
      in case snd row of
           None \<Rightarrow> m1
         | Some i \<Rightarrow> if oi_product_id i \<noteq> [] then push_item (or_id (fst row)) (row_item i) m1
                     else m1)"

definition sql_get_orders_me :: "sql_db \<Rightarrow> jsstring option \<Rightarrow> response" where
  "sql_get_orders_me st sid_cookie =
     (case sql_getUserFromSession st sid_cookie of
        None \<Rightarrow> not_authenticated
      | Some u \<Rightarrow> reply 200 (Orders (foldl add_row [] (select_orders st (uv_id u)))))"

section \<open>Concrete instances for the examples\<close>

text \<open>
  An instance of the library functions, used only where a property is evaluated on a
  concrete request. It prints and reads the natural numbers in decimal, lower-cases the
  ASCII letters, and stands in for \<^verbatim>\<open>bcryptjs\<close> with a salt prefix, so that a password
  matches the hash made from it.
\<close>

fun show_nat :: "nat \<Rightarrow> jsstring" where
  "show_nat n = (if n < 10 then [48 + n] else show_nat (n div 10) @ [48 + n mod 10])"

declare show_nat.simps [simp del]

definition sample_num_to_string :: "jsnum \<Rightarrow> jsstring" where
  "sample_num_to_string n =
     (case n of
        NaN \<Rightarrow> ascii ''NaN''
      | PosInf \<Rightarrow> ascii ''Infinity''
      | NegInf \<Rightarrow> ascii ''-Infinity''
      | Fin r \<Rightarrow>
          if of_int \<lfloor>r\<rfloor> = r then
            (if r < 0 then ascii ''-'' @ show_nat (nat (- \<lfloor>r\<rfloor>)) else show_nat (nat \<lfloor>r\<rfloor>))
          else [])"

definition is_digit :: "nat \<Rightarrow> bool" where
  "is_digit c \<longleftrightarrow> 48 \<le> c \<and> c \<le> 57"

definition sample_string_to_num :: "jsstring \<Rightarrow> jsnum" where
  "sample_string_to_num s =
     (let t = trim s in
      if list_all is_digit t then Fin (of_nat (foldl (\<lambda>a c. 10 * a + (c - 48)) 0 t))
      else NaN)"

definition ascii_lower :: "nat \<Rightarrow> nat" where
  "ascii_lower c = (if 65 \<le> c \<and> c \<le> 90 then c + 32 else c)"

definition sample_builtins :: builtins where
  "sample_builtins =
     \<lparr>num_to_string = sample_num_to_string,
      string_to_num = sample_string_to_num,
      toLowerCase = map ascii_lower,
      bcrypt_hash = (\<lambda>password rounds salt. salt @ password),
      bcrypt_compare = (\<lambda>password h.
        length password \<le> length h \<and> drop (length h - length password) h = password)\<rparr>"

definition E0 :: env where
  "E0 =
     \<lparr>randomUUID1 = ascii ''uuid-1'', randomUUID2 = ascii ''uuid-2'',
      bcrypt_salt = ascii ''salt'',
      toISOString1 = ascii ''2025-01-01T00:00:00.000Z'',
      toISOString2 = ascii ''2025-01-01T00:00:00.001Z'',
      Date_now = 1735689600000\<rparr>"

definition empty_json_db :: json_db where
  "empty_json_db = \<lparr>users = [], sessions = Map.empty, orders = []\<rparr>"

definition empty_sql_db :: sql_db where
  "empty_sql_db =
     \<lparr>users_tbl = [], sessions_tbl = [], orders_tbl = [], order_items_tbl = [], item_seq = 0\<rparr>"

text \<open>A store with one registered user, alice, who holds the session \<^verbatim>\<open>sid-1\<close>.\<close>

definition alice :: user where
  "alice =
     \<lparr>user_id = ascii ''u-alice'', user_name = ascii ''A'', user_email = ascii ''a@x.com'',
      user_passwordHash = ascii ''saltSecret123'',
      user_createdAt = ascii ''2024-12-31T08:00:00.000Z''\<rparr>"

definition json_db1 :: json_db where
  "json_db1 =
     \<lparr>users = [alice],
      sessions = [ascii ''sid-1'' \<mapsto>
        \<lparr>session_userId = ascii ''u-alice'',
         session_createdAt = ascii ''2024-12-31T08:00:00.000Z''\<rparr>],
      orders = []\<rparr>"

definition sql_db1 :: sql_db where
  "sql_db1 =
     \<lparr>users_tbl = [alice],
      sessions_tbl = [\<lparr>sr_id = ascii ''sid-1'', sr_user_id = ascii ''u-alice'',
                       sr_created_at = ascii ''2024-12-31T08:00:00.000Z''\<rparr>],
      orders_tbl = [], order_items_tbl = [], item_seq = 0\<rparr>"

definition credentials :: "string \<Rightarrow> string \<Rightarrow> jsval" where
  "credentials e p =
     JObj [(ascii ''email'', JStr (ascii e)), (ascii ''password'', JStr (ascii p))]"

definition registration :: "string \<Rightarrow> string \<Rightarrow> string \<Rightarrow> jsval" where
  "registration n e p =
     JObj [(ascii ''name'', JStr (ascii n)), (ascii ''email'', JStr (ascii e)),
           (ascii ''password'', JStr (ascii p))]"

definition customer_json :: "string \<Rightarrow> string \<Rightarrow> string \<Rightarrow> jsval" where
  "customer_json n p a =
     JObj [(ascii ''name'', JStr (ascii n)), (ascii ''phone'', JStr (ascii p)),
           (ascii ''address'', JStr (ascii a))]"

definition item_json :: "string \<Rightarrow> string \<Rightarrow> string \<Rightarrow> jsval \<Rightarrow> jsval" where
  "item_json i t c q =
     JObj [(ascii ''id'', JStr (ascii i)), (ascii ''title'', JStr (ascii t)),
           (ascii ''category'', JStr (ascii c)), (ascii ''qty'', q)]"

definition order_request :: "jsval \<Rightarrow> jsval list \<Rightarrow> jsval" where
  "order_request c its = JObj [(ascii ''customer'', c), (ascii ''items'', JArr its)]"

text \<open>The order of the README, with a quantity of minus five.\<close>

definition negative_qty_order :: jsval where
  "negative_qty_order =
     order_request (customer_json ''Shiva'' ''9999999999'' ''Varanasi'')
       [item_json ''prd-1'' ''Instrument 01'' ''Accessories'' (JNum (Fin (- 5)))]"

text \<open>The order of the README, and variations of it.\<close>

definition readme_order :: jsval where
  "readme_order =
     order_request (customer_json ''Shiva'' ''9999999999'' ''Varanasi'')
       [item_json ''prd-1'' ''Instrument 01'' ''Accessories'' (JNum (Fin 1))]"

definition blank_name_order :: jsval where
  "blank_name_order =
     order_request (customer_json ''   '' ''9999999999'' ''Varanasi'')
       [item_json ''prd-1'' ''Instrument 01'' ''Accessories'' (JNum (Fin 1))]"

definition no_id_order :: jsval where
  "no_id_order =
     order_request (customer_json ''Shiva'' ''9999999999'' ''Varanasi'')
       [JObj [(ascii ''title'', JStr (ascii ''Mirror'')),
              (ascii ''category'', JStr (ascii ''Accessories'')),
              (ascii ''qty'', JNum (Fin 2))]]"

definition mixed_qty_order :: jsval where
  "mixed_qty_order =
     order_request (customer_json ''Shiva'' ''9999999999'' ''Varanasi'')
       [item_json ''prd-1'' ''Instrument 01'' ''Accessories'' JNull,
        item_json ''prd-2'' ''Instrument 02'' ''Accessories'' (JNum (Fin 3))]"

definition E1 :: env where
  "E1 =
     \<lparr>randomUUID1 = ascii ''uuid-3'', randomUUID2 = ascii ''uuid-4'',
      bcrypt_salt = ascii ''salt'',
      toISOString1 = ascii ''2025-01-02T00:00:00.000Z'',
      toISOString2 = ascii ''2025-01-02T00:00:00.001Z'',
      Date_now = 1735776000000\<rparr>"

definition orphan_json_db :: json_db where
  "orphan_json_db =
     \<lparr>users = [],
      sessions = [ascii ''sid-9'' \<mapsto>
        \<lparr>session_userId = ascii ''u-gone'',
         session_createdAt = ascii ''2024-12-31T08:00:00.000Z''\<rparr>],
      orders = [\<lparr>order_id = ascii ''DDD-1735689600000'',
                 order_createdAt = ascii ''2025-01-01T00:00:00.000Z'',
                 order_userId = ascii ''u-gone'',
                 order_customer = \<lparr>cust_name = ascii ''G'', cust_phone = ascii ''1'',
                   cust_email = [], cust_address = ascii ''X'', cust_city = [],
                   cust_state = [], cust_pinCode = [], cust_note = []\<rparr>,
                 order_items = []\<rparr>]\<rparr>"

definition shiva :: customer where
  "shiva =
     \<lparr>cust_name = ascii ''Shiva'', cust_phone = ascii ''9999999999'', cust_email = [],
      cust_address = ascii ''Varanasi'', cust_city = [], cust_state = [], cust_pinCode = [],
      cust_note = []\<rparr>"

definition json_after_first :: json_db where
  "json_after_first =
     snd (json_post_orders sample_builtins E0 json_db1 (Some (ascii ''sid-1'')) readme_order)"

definition sql_after_first :: sql_db where
  "sql_after_first =
     snd (sql_post_orders sample_builtins E0 sql_db1 (Some (ascii ''sid-1'')) readme_order)"

definition sql_after_no_id :: sql_db where
  "sql_after_no_id =
     snd (sql_post_orders sample_builtins E0 sql_db1 (Some (ascii ''sid-1'')) no_id_order)"

definition json_after_second :: json_db where
  "json_after_second =
     snd (json_post_orders sample_builtins E1 json_after_first (Some (ascii ''sid-1''))
       mixed_qty_order)"

text \<open>The store of SQLite after the order without an item id and a second order.\<close>

definition sql_after_no_id_second :: sql_db where
  "sql_after_no_id_second =
     snd (sql_post_orders sample_builtins E1 sql_after_no_id (Some (ascii ''sid-1''))
       mixed_qty_order)"



section \<open>Auxiliary definitions for the order listing\<close>

text \<open>
  The rows that one order contributes to the join, what one row pushes to the order of
  id \<open>k\<close>, and what a list of rows pushes to it.
\<close>

definition order_rows :: "order_row \<Rightarrow> item_row list \<Rightarrow> joined_row list" where
  "order_rows ord is =
     (case filter (\<lambda>i. oi_order_id i = or_id ord) is of
        [] \<Rightarrow> [(ord, None)]
      | js \<Rightarrow> map (\<lambda>i. (ord, Some i)) js)"

definition pushed :: "jsstring \<Rightarrow> joined_row \<Rightarrow> item list" where
  "pushed k row =
     (case snd row of
        None \<Rightarrow> []
      | Some i \<Rightarrow> if or_id (fst row) = k \<and> oi_product_id i \<noteq> [] then [row_item i] else [])"

definition items_pushed :: "jsstring \<Rightarrow> joined_row list \<Rightarrow> item list" where
  "items_pushed k rows = concat (map (pushed k) rows)"

section \<open>Auxiliary facts\<close>

lemmas eval_defs = str_field_def or_else_def ascii_def trim_def js_whitespace_def
  sample_builtins_def ascii_lower_def

lemmas example_defs = alice_def json_db1_def sql_db1_def credentials_def registration_def
  E0_def empty_json_db_def empty_sql_db_def

lemmas request_defs = customer_json_def item_json_def order_request_def
  request_customer_def request_items_def customer_missing_def

lemmas order_defs = customer_snapshot_def order_item_def item_string_def item_number_def
  JSON_item_def sanitizeOrder_def sanitizeUser_def property_of_def order_transaction_def
  insert_order_def insert_order_item_def next_item_id_def sql_getUserFromSession_def
  reply_def internal_error_def not_authenticated_def

lemma and_then_simps [simp]:
  "and_then (Inl e) f = Inl e"
  "and_then (Inr x) f = f x"
  by (simp_all add: and_then_def)

lemma and_then_Inr_iff:
  "and_then r f = Inr y \<longleftrightarrow> (\<exists>x. r = Inr x \<and> f x = Inr y)"
  by (cases r) simp_all

lemma find_Some_mem: "find P xs = Some x \<Longrightarrow> x \<in> set xs \<and> P x"
  by (auto simp add: find_Some_iff)

text \<open>What a successful INSERT of an item, of all items, of the whole order leaves.\<close>

lemma insert_order_item_Inr:
  assumes "insert_order_item st orderId i = Inr st1"
  shows "users_tbl st1 = users_tbl st \<and> sessions_tbl st1 = sessions_tbl st
       \<and> orders_tbl st1 = orders_tbl st
       \<and> order_items_tbl st1 = order_items_tbl st @
             [\<lparr>oi_id = next_item_id st, oi_order_id = orderId, oi_product_id = ni_id i,
               oi_title = ni_title i, oi_category = ni_category i, oi_qty = ni_qty i\<rparr>]
       \<and> ni_qty i \<noteq> NaN"
  using assms by (auto simp add: insert_order_item_def split: if_splits)

lemma insert_items_Inr:
  assumes "insert_items B st orderId items = Inr st1"
  shows "users_tbl st1 = users_tbl st \<and> sessions_tbl st1 = sessions_tbl st
       \<and> orders_tbl st1 = orders_tbl st
       \<and> (\<exists>its rows. sequence (map (order_item B) items) = Inr its
            \<and> order_items_tbl st1 = order_items_tbl st @ rows
            \<and> map oi_qty rows = map ni_qty its
            \<and> map oi_product_id rows = map ni_id its
            \<and> map oi_title rows = map ni_title its
            \<and> map oi_category rows = map ni_category its
            \<and> NaN \<notin> set (map ni_qty its))"
  using assms
proof (induction items arbitrary: st)
  case Nil
  then show ?case by simp
next
  case (Cons it items)
  from Cons.prems obtain i st2 where i: "order_item B it = Inr i"
    and st2: "insert_order_item st orderId i = Inr st2"
    and rest: "insert_items B st2 orderId items = Inr st1"
    by (auto simp add: and_then_Inr_iff)
  from Cons.IH [OF rest] obtain its rows where
    f: "users_tbl st1 = users_tbl st2" "sessions_tbl st1 = sessions_tbl st2"
       "orders_tbl st1 = orders_tbl st2"
    and s: "sequence (map (order_item B) items) = Inr its"
    and r: "order_items_tbl st1 = order_items_tbl st2 @ rows"
    and m: "map oi_qty rows = map ni_qty its" "map oi_product_id rows = map ni_id its"
       "map oi_title rows = map ni_title its" "map oi_category rows = map ni_category its"
       "NaN \<notin> set (map ni_qty its)"
    by blast
  note one = insert_order_item_Inr [OF st2]
  let ?row = "\<lparr>oi_id = next_item_id st, oi_order_id = orderId, oi_product_id = ni_id i,
               oi_title = ni_title i, oi_category = ni_category i, oi_qty = ni_qty i\<rparr>"
  have seq: "sequence (map (order_item B) (it # items)) = Inr (i # its)"
    using i s by simp
  have tbl: "order_items_tbl st1 = order_items_tbl st @ (?row # rows)"
    using r one by simp
  have maps: "map oi_qty (?row # rows) = map ni_qty (i # its)"
    "map oi_product_id (?row # rows) = map ni_id (i # its)"
    "map oi_title (?row # rows) = map ni_title (i # its)"
    "map oi_category (?row # rows) = map ni_category (i # its)"
    "NaN \<notin> set (map ni_qty (i # its))"
    using m one by auto
  have "\<exists>its rows. sequence (map (order_item B) (it # items)) = Inr its
            \<and> order_items_tbl st1 = order_items_tbl st @ rows
            \<and> map oi_qty rows = map ni_qty its
            \<and> map oi_product_id rows = map ni_id its
            \<and> map oi_title rows = map ni_title its
            \<and> map oi_category rows = map ni_category its
            \<and> NaN \<notin> set (map ni_qty its)"
  proof (intro exI conjI)
    show "sequence (map (order_item B) (it # items)) = Inr (i # its)" by (rule seq)
    show "order_items_tbl st1 = order_items_tbl st @ (?row # rows)" by (rule tbl)
  qed (rule maps)+
  with f one show ?case by simp
qed

lemma order_transaction_Inr:
  assumes "order_transaction B st orderId userId createdAt customer items = Inr st1"
  shows "users_tbl st1 = users_tbl st \<and> sessions_tbl st1 = sessions_tbl st
       \<and> (\<exists>cust its rows. customer_snapshot B customer = Inr cust
            \<and> sequence (map (order_item B) items) = Inr its
            \<and> orderId \<notin> or_id ` set (orders_tbl st)
            \<and> orders_tbl st1 = orders_tbl st @
                 [\<lparr>or_id = orderId, or_user_id = userId, or_created_at = createdAt,
                   or_customer = cust\<rparr>]
            \<and> order_items_tbl st1 = order_items_tbl st @ rows
            \<and> map oi_qty rows = map ni_qty its
            \<and> map oi_product_id rows = map ni_id its
            \<and> map oi_title rows = map ni_title its
            \<and> map oi_category rows = map ni_category its
            \<and> NaN \<notin> set (map ni_qty its))"
proof -
  from assms obtain cust st2 where c: "customer_snapshot B customer = Inr cust"
    and o: "insert_order st \<lparr>or_id = orderId, or_user_id = userId,
              or_created_at = createdAt, or_customer = cust\<rparr> = Inr st2"
    and i: "insert_items B st2 orderId items = Inr st1"
    by (auto simp add: order_transaction_def and_then_Inr_iff)
  from o have st2: "st2 = st\<lparr>orders_tbl := orders_tbl st @
      [\<lparr>or_id = orderId, or_user_id = userId, or_created_at = createdAt,
        or_customer = cust\<rparr>]\<rparr>"
    and fresh: "orderId \<notin> or_id ` set (orders_tbl st)"
    by (auto simp add: insert_order_def split: if_splits)
  from insert_items_Inr [OF i] c fresh show ?thesis
    unfolding st2 by auto
qed

text \<open>The shape of a 201 answer of \<^verbatim>\<open>POST /orders\<close>, in each variant.\<close>

lemma json_post_orders_created:
  assumes "json_post_orders B E db c req_body = (r, db1)" and "status r = 201"
  shows "\<exists>cust its u. customer_snapshot B (request_customer req_body) = Inr cust
          \<and> sequence (map (order_item B) (request_items req_body)) = Inr its
          \<and> json_getUserFromSession db c = Some u
          \<and> \<not> customer_missing (request_customer req_body)
          \<and> request_items req_body \<noteq> []
          \<and> r = reply 201 (Order \<lparr>ov_id = order_id_of B (Date_now E),
                 ov_createdAt = toISOString1 E, ov_customer = cust,
                 ov_items = map JSON_item its\<rparr>)
          \<and> db1 = db\<lparr>orders := orders db @
                 [\<lparr>order_id = order_id_of B (Date_now E), order_createdAt = toISOString1 E,
                   order_userId = user_id u, order_customer = cust,
                   order_items = map JSON_item its\<rparr>]\<rparr>"
  using assms
  by (auto simp add: json_post_orders_def json_getUserFromSession_def Let_def reply_def
      internal_error_def not_authenticated_def and_then_Inr_iff sanitizeOrder_def
      split: option.splits if_splits sum.splits)

lemma sql_post_orders_created:
  assumes "sql_post_orders B E st c req_body = (r, st1)" and "status r = 201"
  shows "\<exists>cust its u. customer_snapshot B (request_customer req_body) = Inr cust
          \<and> sequence (map (order_item B) (request_items req_body)) = Inr its
          \<and> sql_getUserFromSession st c = Some u
          \<and> \<not> customer_missing (request_customer req_body)
          \<and> request_items req_body \<noteq> []
          \<and> r = reply 201 (Order \<lparr>ov_id = order_id_of B (Date_now E),
                 ov_createdAt = toISOString1 E, ov_customer = cust,
                 ov_items = map JSON_item its\<rparr>)
          \<and> order_transaction B st (order_id_of B (Date_now E)) (uv_id u) (toISOString1 E)
                (request_customer req_body) (request_items req_body) = Inr st1"
  using assms
  by (auto simp add: sql_post_orders_def Let_def reply_def
      internal_error_def not_authenticated_def and_then_Inr_iff
      split: option.splits if_splits sum.splits)

lemmas more_defs = readme_order_def blank_name_order_def no_id_order_def mixed_qty_order_def
  E1_def orphan_json_db_def negative_qty_order_def

lemmas coercion_defs = str_field_def or_else_def ascii_def trim_def js_whitespace_def

lemmas listing_defs = sql_get_orders_me_def select_orders_def left_join_def order_by_def
  row_le_def add_row_def push_item_def order_header_def row_item_def

text \<open>The two order ids of the examples, and the first order of alice in each variant.\<close>

lemma order_id_sample:
  "order_id_of sample_builtins 1735689600000 = ascii ''DDD-1735689600000''"
  apply (simp add: order_id_of_def sample_builtins_def sample_num_to_string_def ascii_def)
  apply (simp add: show_nat.simps)
  done

lemma order_id_sample_later:
  "order_id_of sample_builtins 1735776000000 = ascii ''DDD-1735776000000''"
  apply (simp add: order_id_of_def sample_builtins_def sample_num_to_string_def ascii_def)
  apply (simp add: show_nat.simps)
  done

lemma json_after_first_eq:
  "json_post_orders sample_builtins E0 json_db1 (Some (ascii ''sid-1'')) readme_order =
     (reply 201 (Order \<lparr>ov_id = ascii ''DDD-1735689600000'',
        ov_createdAt = ascii ''2025-01-01T00:00:00.000Z'', ov_customer = shiva,
        ov_items = [\<lparr>item_id = ascii ''prd-1'', item_title = ascii ''Instrument 01'',
                     item_category = ascii ''Accessories'', item_qty = Some 1\<rparr>]\<rparr>),
      json_db1\<lparr>orders := [\<lparr>order_id = ascii ''DDD-1735689600000'',
        order_createdAt = ascii ''2025-01-01T00:00:00.000Z'',
        order_userId = ascii ''u-alice'', order_customer = shiva,
        order_items = [\<lparr>item_id = ascii ''prd-1'', item_title = ascii ''Instrument 01'',
                     item_category = ascii ''Accessories'', item_qty = Some 1\<rparr>]\<rparr>]\<rparr>)"
  by (simp add: json_post_orders_def Let_def order_id_sample request_defs order_defs
      example_defs more_defs coercion_defs shiva_def)

lemma sql_after_first_eq:
  "sql_post_orders sample_builtins E0 sql_db1 (Some (ascii ''sid-1'')) readme_order =
     (reply 201 (Order \<lparr>ov_id = ascii ''DDD-1735689600000'',
        ov_createdAt = ascii ''2025-01-01T00:00:00.000Z'', ov_customer = shiva,
        ov_items = [\<lparr>item_id = ascii ''prd-1'', item_title = ascii ''Instrument 01'',
                     item_category = ascii ''Accessories'', item_qty = Some 1\<rparr>]\<rparr>),
      sql_db1\<lparr>orders_tbl := [\<lparr>or_id = ascii ''DDD-1735689600000'',
          or_user_id = ascii ''u-alice'',
          or_created_at = ascii ''2025-01-01T00:00:00.000Z'', or_customer = shiva\<rparr>],
        order_items_tbl := [\<lparr>oi_id = 1, oi_order_id = ascii ''DDD-1735689600000'',
          oi_product_id = ascii ''prd-1'', oi_title = ascii ''Instrument 01'',
          oi_category = ascii ''Accessories'', oi_qty = Fin 1\<rparr>],
        item_seq := 1\<rparr>)"
  by (simp add: sql_post_orders_def Let_def order_id_sample request_defs order_defs
      example_defs more_defs coercion_defs shiva_def)

lemma sql_after_no_id_eq:
  "sql_post_orders sample_builtins E0 sql_db1 (Some (ascii ''sid-1'')) no_id_order =
     (reply 201 (Order \<lparr>ov_id = ascii ''DDD-1735689600000'',
        ov_createdAt = ascii ''2025-01-01T00:00:00.000Z'', ov_customer = shiva,
        ov_items = [\<lparr>item_id = [], item_title = ascii ''Mirror'',
                     item_category = ascii ''Accessories'', item_qty = Some 2\<rparr>]\<rparr>),
      sql_db1\<lparr>orders_tbl := [\<lparr>or_id = ascii ''DDD-1735689600000'',
          or_user_id = ascii ''u-alice'',
          or_created_at = ascii ''2025-01-01T00:00:00.000Z'', or_customer = shiva\<rparr>],
        order_items_tbl := [\<lparr>oi_id = 1, oi_order_id = ascii ''DDD-1735689600000'',
          oi_product_id = [], oi_title = ascii ''Mirror'',
          oi_category = ascii ''Accessories'', oi_qty = Fin 2\<rparr>],
        item_seq := 1\<rparr>)"
  by (simp add: sql_post_orders_def Let_def order_id_sample request_defs order_defs
      example_defs more_defs coercion_defs shiva_def)

lemma json_post_orders_other:
  assumes "status (fst (json_post_orders B E db c req_body)) \<noteq> 201"
  shows "snd (json_post_orders B E db c req_body) = db"
  using assms
  by (auto simp add: json_post_orders_def Let_def reply_def
      split: option.splits if_splits sum.splits)

lemma sql_post_orders_other:
  assumes "status (fst (sql_post_orders B E st c req_body)) \<noteq> 201"
  shows "snd (sql_post_orders B E st c req_body) = st"
proof (cases "sql_getUserFromSession st c")
  case None
  then show ?thesis by (simp add: sql_post_orders_def)
next
  case (Some u)
  let ?t = "order_transaction B st (order_id_of B (Date_now E)) (uv_id u) (toISOString1 E)
      (request_customer req_body) (request_items req_body)"
  show ?thesis
  proof (cases ?t)
    case (Inl e)
    with Some show ?thesis by (simp add: sql_post_orders_def Let_def)
  next
    case (Inr st1)
    from order_transaction_Inr [OF Inr] obtain cust its where
      "customer_snapshot B (request_customer req_body) = Inr cust"
      "sequence (map (order_item B) (request_items req_body)) = Inr its"
      by blast
    with Some Inr assms show ?thesis
      by (auto simp add: sql_post_orders_def Let_def reply_def split: if_splits)
  qed
qed

lemma insert_items_order_id:
  assumes "insert_items B st orderId items = Inr st1"
  shows "\<exists>rows. order_items_tbl st1 = order_items_tbl st @ rows
          \<and> (\<forall>row \<in> set rows. oi_order_id row = orderId)"
  using assms
proof (induction items arbitrary: st)
  case Nil
  then show ?case by simp
next
  case (Cons it items)
  from Cons.prems obtain i st2 where st2: "insert_order_item st orderId i = Inr st2"
    and rest: "insert_items B st2 orderId items = Inr st1"
    by (auto simp add: and_then_Inr_iff)
  from Cons.IH [OF rest] obtain rows where
    r: "order_items_tbl st1 = order_items_tbl st2 @ rows"
    and o: "\<forall>row \<in> set rows. oi_order_id row = orderId"
    by blast
  let ?row = "\<lparr>oi_id = next_item_id st, oi_order_id = orderId, oi_product_id = ni_id i,
               oi_title = ni_title i, oi_category = ni_category i, oi_qty = ni_qty i\<rparr>"
  from insert_order_item_Inr [OF st2] r
  have "order_items_tbl st1 = order_items_tbl st @ (?row # rows)" by simp
  moreover from o have "\<forall>row \<in> set (?row # rows). oi_order_id row = orderId" by simp
  ultimately show ?case by blast
qed

lemma order_transaction_order_id:
  assumes "order_transaction B st orderId userId createdAt customer items = Inr st1"
  shows "\<exists>rows. order_items_tbl st1 = order_items_tbl st @ rows
          \<and> (\<forall>row \<in> set rows. oi_order_id row = orderId)"
proof -
  from assms obtain cust st2 where
    o: "insert_order st \<lparr>or_id = orderId, or_user_id = userId,
              or_created_at = createdAt, or_customer = cust\<rparr> = Inr st2"
    and i: "insert_items B st2 orderId items = Inr st1"
    by (auto simp add: order_transaction_def and_then_Inr_iff)
  from o have "order_items_tbl st2 = order_items_tbl st"
    by (auto simp add: insert_order_def split: if_splits)
  with insert_items_order_id [OF i] show ?thesis by simp
qed








section \<open>Registration\<close>

text \<open>
  C4, as the code has it. When the name or the email is empty after trimming (and, for
  the email, lower-casing) or the password is empty as sent, both variants answer 400
  and leave the store as it was, whatever the store holds: the check comes before the
  email lookup. The password is not trimmed.
\<close>

theorem register_requires_fields:
  assumes "str_field B req_body ''name'' = Inr n"
    and "str_field B req_body ''email'' = Inr e"
    and "str_field B req_body ''password'' = Inr p"
    and "trim n = [] \<or> toLowerCase B (trim e) = [] \<or> p = []"
  shows "json_post_auth_register B E db req_body =
           (reply 400 (Error ''name, email, and password are required''), db)
         \<and> sql_post_auth_register B E st req_body =
           (reply 400 (Error ''name, email, and password are required''), st)"
  using assms
  by (auto simp add: json_post_auth_register_def sql_post_auth_register_def
      register_fields_def)

text \<open>A name of two spaces is refused, on a store where the email is already taken.\<close>

theorem register_requires_fields_witness:
  "str_field sample_builtins (registration ''  '' ''a@x.com'' ''Secret123'') ''name'' =
     Inr (ascii ''  '')
   \<and> trim (ascii ''  '') = []
   \<and> json_post_auth_register sample_builtins E0 json_db1
        (registration ''  '' ''a@x.com'' ''Secret123'') =
       (reply 400 (Error ''name, email, and password are required''), json_db1)
   \<and> sql_post_auth_register sample_builtins E0 sql_db1
        (registration ''  '' ''a@x.com'' ''Secret123'') =
       (reply 400 (Error ''name, email, and password are required''), sql_db1)"
proof -
  let ?req = "registration ''  '' ''a@x.com'' ''Secret123''"
  have n: "str_field sample_builtins ?req ''name'' = Inr (ascii ''  '')"
    by (simp add: example_defs eval_defs)
  have e: "str_field sample_builtins ?req ''email'' = Inr (ascii ''a@x.com'')"
    by (simp add: example_defs eval_defs)
  have p: "str_field sample_builtins ?req ''password'' = Inr (ascii ''Secret123'')"
    by (simp add: example_defs eval_defs)
  have t: "trim (ascii ''  '') = []"
    by (simp add: eval_defs)
  from register_requires_fields [OF n e p, of E0 json_db1 sql_db1] n t
  show ?thesis by simp
qed

text \<open>
  C4 as stated fails: a password of three spaces is empty after trimming, and both
  variants register the user.
\<close>

theorem blank_password_registers:
  "trim (ascii ''   '') = []
   \<and> status (fst (json_post_auth_register sample_builtins E0 empty_json_db
        (registration ''A'' ''a@x.com'' ''   ''))) = 201
   \<and> map user_email (users (snd (json_post_auth_register sample_builtins E0 empty_json_db
        (registration ''A'' ''a@x.com'' ''   '')))) = [ascii ''a@x.com'']
   \<and> status (fst (sql_post_auth_register sample_builtins E0 empty_sql_db
        (registration ''A'' ''a@x.com'' ''   ''))) = 201
   \<and> map user_email (users_tbl (snd (sql_post_auth_register sample_builtins E0 empty_sql_db
        (registration ''A'' ''a@x.com'' ''   '')))) = [ascii ''a@x.com'']"
  by (simp add: json_post_auth_register_def sql_post_auth_register_def register_fields_def
      example_defs eval_defs insert_user_def insert_session_def Let_def)

text \<open>
  C6. A request that passes the field check (C4) and whose email, trimmed and
  lower-cased, is the email of a stored user is answered 409 by both variants, and the
  store is returned as it was: no user and no session is added, no cookie is set.
\<close>

theorem register_conflict:
  assumes "str_field B req_body ''name'' = Inr n"
    and "str_field B req_body ''email'' = Inr e"
    and "str_field B req_body ''password'' = Inr p"
    and "trim n \<noteq> []" and "toLowerCase B (trim e) \<noteq> []" and "p \<noteq> []"
    and "toLowerCase B (trim e) \<in> user_email ` set (users db)"
    and "toLowerCase B (trim e) \<in> user_email ` set (users_tbl st)"
  shows "json_post_auth_register B E db req_body =
           (reply 409 (Error ''email already registered''), db)
         \<and> sql_post_auth_register B E st req_body =
           (reply 409 (Error ''email already registered''), st)"
proof -
  from assms(8) have "find (\<lambda>u. user_email u = toLowerCase B (trim e)) (users_tbl st) \<noteq> None"
    by (auto simp add: find_None_iff)
  with assms show ?thesis
    by (auto simp add: json_post_auth_register_def sql_post_auth_register_def
        register_fields_def)
qed

text \<open>Alice holds \<^verbatim>\<open>a@x.com\<close>; a second registration sends \<^verbatim>\<open>A@X.COM\<close> between spaces.\<close>

theorem register_conflict_witness:
  "toLowerCase sample_builtins (trim (ascii ''  A@X.COM '')) = ascii ''a@x.com''
   \<and> ascii ''a@x.com'' \<in> user_email ` set (users json_db1)
   \<and> json_post_auth_register sample_builtins E0 json_db1
        (registration ''B'' ''  A@X.COM '' ''other'') =
       (reply 409 (Error ''email already registered''), json_db1)
   \<and> sql_post_auth_register sample_builtins E0 sql_db1
        (registration ''B'' ''  A@X.COM '' ''other'') =
       (reply 409 (Error ''email already registered''), sql_db1)"
proof -
  let ?req = "registration ''B'' ''  A@X.COM '' ''other''"
  have n: "str_field sample_builtins ?req ''name'' = Inr (ascii ''B'')"
    by (simp add: example_defs eval_defs)
  have e: "str_field sample_builtins ?req ''email'' = Inr (ascii ''  A@X.COM '')"
    by (simp add: example_defs eval_defs)
  have p: "str_field sample_builtins ?req ''password'' = Inr (ascii ''other'')"
    by (simp add: example_defs eval_defs)
  have l: "toLowerCase sample_builtins (trim (ascii ''  A@X.COM '')) = ascii ''a@x.com''"
    by (simp add: eval_defs)
  have ne: "trim (ascii ''B'') \<noteq> []" "toLowerCase sample_builtins (trim (ascii ''  A@X.COM '')) \<noteq> []"
    "ascii ''other'' \<noteq> []"
    by (simp_all add: eval_defs)
  have m: "toLowerCase sample_builtins (trim (ascii ''  A@X.COM '')) \<in> user_email ` set (users json_db1)"
    "toLowerCase sample_builtins (trim (ascii ''  A@X.COM '')) \<in> user_email ` set (users_tbl sql_db1)"
    by (simp_all add: example_defs eval_defs)
  from register_conflict [OF n e p ne m, of E0] l m(1)
  show ?thesis by simp
qed

section \<open>Login\<close>

text \<open>
  C5. Take three login requests whose fields are not empty (the email trimmed and
  lower-cased): the first names no stored user, the second a stored user with a
  password that \<^verbatim>\<open>bcrypt.compare\<close> rejects, the third a stored user with a password it
  accepts. Both variants give the first two the same answer, status 401 with the error
  \<^verbatim>\<open>invalid credentials\<close> and no cookie, and leave the store as it was; the third is answered 200 with the
  sanitized user and a cookie holding the new session id, and the store gains exactly
  that session, owned by the user (in SQLite, provided the id is not already a session
  id, as a random UUID is not).
\<close>

theorem login_uniform_error_and_success:
  assumes "login_fields B req1 = Inr (email1, password1)"
    and "login_fields B req2 = Inr (email2, password2)"
    and "login_fields B req3 = Inr (email3, password3)"
    and "email1 \<noteq> [] \<and> password1 \<noteq> [] \<and> email2 \<noteq> [] \<and> password2 \<noteq> []
         \<and> email3 \<noteq> [] \<and> password3 \<noteq> []"
    and "find (\<lambda>u. user_email u = email1) (users db) = None"
    and "find (\<lambda>u. user_email u = email1) (users_tbl st) = None"
    and "find (\<lambda>u. user_email u = email2) (users db) = Some u2"
    and "find (\<lambda>u. user_email u = email2) (users_tbl st) = Some v2"
    and "\<not> bcrypt_compare B password2 (user_passwordHash u2)"
    and "\<not> bcrypt_compare B password2 (user_passwordHash v2)"
    and "find (\<lambda>u. user_email u = email3) (users db) = Some u3"
    and "find (\<lambda>u. user_email u = email3) (users_tbl st) = Some v3"
    and "bcrypt_compare B password3 (user_passwordHash u3)"
    and "bcrypt_compare B password3 (user_passwordHash v3)"
    and "randomUUID1 E \<notin> sr_id ` set (sessions_tbl st)"
  shows "json_post_auth_login B E db req1 =
           (\<lparr>status = 401, body = Error ''invalid credentials'', cookie = NoCookie\<rparr>, db)
       \<and> json_post_auth_login B E db req2 =
           (\<lparr>status = 401, body = Error ''invalid credentials'', cookie = NoCookie\<rparr>, db)
       \<and> sql_post_auth_login B E st req1 =
           (\<lparr>status = 401, body = Error ''invalid credentials'', cookie = NoCookie\<rparr>, st)
       \<and> sql_post_auth_login B E st req2 =
           (\<lparr>status = 401, body = Error ''invalid credentials'', cookie = NoCookie\<rparr>, st)
       \<and> json_post_auth_login B E db req3 =
           (\<lparr>status = 200, body = User (sanitizeUser u3), cookie = SetCookie (randomUUID1 E)\<rparr>,
            db\<lparr>sessions := (sessions db)(randomUUID1 E \<mapsto>
                 \<lparr>session_userId = user_id u3, session_createdAt = toISOString1 E\<rparr>)\<rparr>)
       \<and> sql_post_auth_login B E st req3 =
           (\<lparr>status = 200, body = User (sanitizeUser v3), cookie = SetCookie (randomUUID1 E)\<rparr>,
            st\<lparr>sessions_tbl := sessions_tbl st @
                 [\<lparr>sr_id = randomUUID1 E, sr_user_id = user_id v3,
                   sr_created_at = toISOString1 E\<rparr>]\<rparr>)"
proof -
  from assms(12) have "user_id v3 \<in> user_id ` set (users_tbl st)"
    by (auto dest: find_Some_mem)
  with assms show ?thesis
    by (simp add: json_post_auth_login_def sql_post_auth_login_def insert_session_def Let_def
        invalid_credentials_def reply_def)
qed

text \<open>
  After alice registered with \<^verbatim>\<open>a@x.com\<close> and \<^verbatim>\<open>Secret123\<close>: an unknown email and a
  wrong password are answered alike, and \<^verbatim>\<open>A@X.COM\<close> with the right password logs in.
\<close>

theorem login_uniform_error_and_success_witness:
  "json_post_auth_login sample_builtins E0 json_db1 (credentials ''nouser@x.com'' ''whatever'') =
     (\<lparr>status = 401, body = Error ''invalid credentials'', cookie = NoCookie\<rparr>, json_db1)
   \<and> json_post_auth_login sample_builtins E0 json_db1 (credentials ''a@x.com'' ''wrong'') =
     (\<lparr>status = 401, body = Error ''invalid credentials'', cookie = NoCookie\<rparr>, json_db1)
   \<and> sql_post_auth_login sample_builtins E0 sql_db1 (credentials ''nouser@x.com'' ''whatever'') =
     (\<lparr>status = 401, body = Error ''invalid credentials'', cookie = NoCookie\<rparr>, sql_db1)
   \<and> sql_post_auth_login sample_builtins E0 sql_db1 (credentials ''a@x.com'' ''wrong'') =
     (\<lparr>status = 401, body = Error ''invalid credentials'', cookie = NoCookie\<rparr>, sql_db1)
   \<and> status (fst (json_post_auth_login sample_builtins E0 json_db1
         (credentials '' A@X.COM '' ''Secret123''))) = 200
   \<and> sessions (snd (json_post_auth_login sample_builtins E0 json_db1
         (credentials '' A@X.COM '' ''Secret123''))) (ascii ''uuid-1'') =
       Some \<lparr>session_userId = ascii ''u-alice'',
             session_createdAt = ascii ''2025-01-01T00:00:00.000Z''\<rparr>
   \<and> status (fst (sql_post_auth_login sample_builtins E0 sql_db1
         (credentials '' A@X.COM '' ''Secret123''))) = 200
   \<and> map sr_id (sessions_tbl (snd (sql_post_auth_login sample_builtins E0 sql_db1
         (credentials '' A@X.COM '' ''Secret123'')))) = [ascii ''sid-1'', ascii ''uuid-1'']"
proof -
  have f1: "login_fields sample_builtins (credentials ''nouser@x.com'' ''whatever'') =
      Inr (ascii ''nouser@x.com'', ascii ''whatever'')"
    by (simp add: login_fields_def example_defs eval_defs)
  have f2: "login_fields sample_builtins (credentials ''a@x.com'' ''wrong'') =
      Inr (ascii ''a@x.com'', ascii ''wrong'')"
    by (simp add: login_fields_def example_defs eval_defs)
  have f3: "login_fields sample_builtins (credentials '' A@X.COM '' ''Secret123'') =
      Inr (ascii ''a@x.com'', ascii ''Secret123'')"
    by (simp add: login_fields_def example_defs eval_defs)
  have ne: "ascii ''nouser@x.com'' \<noteq> [] \<and> ascii ''whatever'' \<noteq> [] \<and> ascii ''a@x.com'' \<noteq> []
      \<and> ascii ''wrong'' \<noteq> [] \<and> ascii ''a@x.com'' \<noteq> [] \<and> ascii ''Secret123'' \<noteq> []"
    by (simp add: ascii_def)
  have u1: "find (\<lambda>u. user_email u = ascii ''nouser@x.com'') (users json_db1) = None"
    "find (\<lambda>u. user_email u = ascii ''nouser@x.com'') (users_tbl sql_db1) = None"
    by (simp_all add: example_defs ascii_def)
  have u2: "find (\<lambda>u. user_email u = ascii ''a@x.com'') (users json_db1) = Some alice"
    "find (\<lambda>u. user_email u = ascii ''a@x.com'') (users_tbl sql_db1) = Some alice"
    by (simp_all add: example_defs ascii_def)
  have c2: "\<not> bcrypt_compare sample_builtins (ascii ''wrong'') (user_passwordHash alice)"
    by (simp add: example_defs eval_defs)
  have c3: "bcrypt_compare sample_builtins (ascii ''Secret123'') (user_passwordHash alice)"
    by (simp add: example_defs eval_defs)
  have fresh: "randomUUID1 E0 \<notin> sr_id ` set (sessions_tbl sql_db1)"
    by (simp add: example_defs ascii_def)
  from login_uniform_error_and_success [OF f1 f2 f3 ne u1 u2 c2 c2 u2 c3 c3 fresh]
  show ?thesis
    by (simp add: example_defs ascii_def)
qed

section \<open>Placing an order\<close>

text \<open>
  C10. \<^verbatim>\<open>POST /orders\<close> returns the users and the sessions as they were, whatever it
  answers. The orders it leaves are the orders it found followed by the new ones: one
  when the answer is 201, none otherwise. In SQLite the same holds of the order rows;
  the item rows it found are still there, in place, and every row added after them
  carries the id of the new order, which is the id of no order that was there before.
\<close>

theorem place_order_frame:
  "users (snd (json_post_orders B E db c req_body)) = users db
   \<and> sessions (snd (json_post_orders B E db c req_body)) = sessions db
   \<and> (\<exists>new. orders (snd (json_post_orders B E db c req_body)) = orders db @ new
        \<and> length new = (if status (fst (json_post_orders B E db c req_body)) = 201 then 1 else 0))
   \<and> users_tbl (snd (sql_post_orders B E st c req_body)) = users_tbl st
   \<and> sessions_tbl (snd (sql_post_orders B E st c req_body)) = sessions_tbl st
   \<and> (\<exists>new rows.
         orders_tbl (snd (sql_post_orders B E st c req_body)) = orders_tbl st @ new
         \<and> length new = (if status (fst (sql_post_orders B E st c req_body)) = 201 then 1 else 0)
         \<and> order_items_tbl (snd (sql_post_orders B E st c req_body)) =
             order_items_tbl st @ rows
         \<and> (\<forall>row \<in> set rows. oi_order_id row \<in> or_id ` set new
               \<and> oi_order_id row \<notin> or_id ` set (orders_tbl st)))"
proof -
  let ?j = "json_post_orders B E db c req_body"
  let ?s = "sql_post_orders B E st c req_body"
  have j: "users (snd ?j) = users db \<and> sessions (snd ?j) = sessions db
      \<and> (\<exists>new. orders (snd ?j) = orders db @ new
           \<and> length new = (if status (fst ?j) = 201 then 1 else 0))"
  proof (cases "status (fst ?j) = 201")
    case True
    from json_post_orders_created [OF surjective_pairing True] show ?thesis
      using True by auto
  next
    case False
    with json_post_orders_other [OF False] show ?thesis by simp
  qed
  have s: "users_tbl (snd ?s) = users_tbl st \<and> sessions_tbl (snd ?s) = sessions_tbl st
      \<and> (\<exists>new rows. orders_tbl (snd ?s) = orders_tbl st @ new
           \<and> length new = (if status (fst ?s) = 201 then 1 else 0)
           \<and> order_items_tbl (snd ?s) = order_items_tbl st @ rows
           \<and> (\<forall>row \<in> set rows. oi_order_id row \<in> or_id ` set new
                 \<and> oi_order_id row \<notin> or_id ` set (orders_tbl st)))"
  proof (cases "status (fst ?s) = 201")
    case True
    let ?id = "order_id_of B (Date_now E)"
    from sql_post_orders_created [OF surjective_pairing True] obtain u :: user_view where
      t: "order_transaction B st ?id (uv_id u) (toISOString1 E)
          (request_customer req_body) (request_items req_body) = Inr (snd ?s)"
      by auto
    from order_transaction_Inr [OF t] obtain cust where
      f: "users_tbl (snd ?s) = users_tbl st" "sessions_tbl (snd ?s) = sessions_tbl st"
      and fresh: "?id \<notin> or_id ` set (orders_tbl st)"
      and o: "orders_tbl (snd ?s) = orders_tbl st @
                 [\<lparr>or_id = ?id, or_user_id = uv_id u, or_created_at = toISOString1 E,
                   or_customer = cust\<rparr>]"
      by auto
    from order_transaction_order_id [OF t] obtain rows where
      r: "order_items_tbl (snd ?s) = order_items_tbl st @ rows"
      and i: "\<forall>row \<in> set rows. oi_order_id row = ?id"
      by blast
    let ?new = "[\<lparr>or_id = ?id, or_user_id = uv_id u, or_created_at = toISOString1 E,
                   or_customer = cust\<rparr>]"
    have "orders_tbl (snd ?s) = orders_tbl st @ ?new
           \<and> length ?new = (if status (fst ?s) = 201 then 1 else 0)
           \<and> order_items_tbl (snd ?s) = order_items_tbl st @ rows
           \<and> (\<forall>row \<in> set rows. oi_order_id row \<in> or_id ` set ?new
                 \<and> oi_order_id row \<notin> or_id ` set (orders_tbl st))"
      using o r i fresh True by simp
    then have "\<exists>new rows. orders_tbl (snd ?s) = orders_tbl st @ new
           \<and> length new = (if status (fst ?s) = 201 then 1 else 0)
           \<and> order_items_tbl (snd ?s) = order_items_tbl st @ rows
           \<and> (\<forall>row \<in> set rows. oi_order_id row \<in> or_id ` set new
                 \<and> oi_order_id row \<notin> or_id ` set (orders_tbl st))"
      by (intro exI)
    with f show ?thesis by simp
  next
    case False
    from sql_post_orders_other [OF False] False
    have "orders_tbl (snd ?s) = orders_tbl st @ []
           \<and> length ([] :: order_row list) = (if status (fst ?s) = 201 then 1 else 0)
           \<and> order_items_tbl (snd ?s) = order_items_tbl st @ []
           \<and> (\<forall>row \<in> set ([] :: item_row list). oi_order_id row \<in> or_id ` set ([] :: order_row list)
                 \<and> oi_order_id row \<notin> or_id ` set (orders_tbl st))"
      by simp
    then have "\<exists>new rows. orders_tbl (snd ?s) = orders_tbl st @ new
           \<and> length new = (if status (fst ?s) = 201 then 1 else 0)
           \<and> order_items_tbl (snd ?s) = order_items_tbl st @ rows
           \<and> (\<forall>row \<in> set rows. oi_order_id row \<in> or_id ` set new
                 \<and> oi_order_id row \<notin> or_id ` set (orders_tbl st))"
      by (intro exI)
    with sql_post_orders_other [OF False] show ?thesis by simp
  qed
  from j s show ?thesis by simp
qed

text \<open>The order of the README, placed by alice in each variant.\<close>

theorem place_order_frame_witness:
  "users (snd (json_post_orders sample_builtins E0 json_db1 (Some (ascii ''sid-1''))
      readme_order)) = [alice]
   \<and> sessions (snd (json_post_orders sample_builtins E0 json_db1 (Some (ascii ''sid-1''))
      readme_order)) = sessions json_db1
   \<and> length (orders (snd (json_post_orders sample_builtins E0 json_db1
      (Some (ascii ''sid-1'')) readme_order))) = 1
   \<and> users_tbl (snd (sql_post_orders sample_builtins E0 sql_db1 (Some (ascii ''sid-1''))
      readme_order)) = [alice]
   \<and> sessions_tbl (snd (sql_post_orders sample_builtins E0 sql_db1 (Some (ascii ''sid-1''))
      readme_order)) = sessions_tbl sql_db1
   \<and> map or_id (orders_tbl (snd (sql_post_orders sample_builtins E0 sql_db1
      (Some (ascii ''sid-1'')) readme_order))) = [ascii ''DDD-1735689600000'']
   \<and> map oi_order_id (order_items_tbl (snd (sql_post_orders sample_builtins E0 sql_db1
      (Some (ascii ''sid-1'')) readme_order))) = [ascii ''DDD-1735689600000'']"
proof -
  have j: "status (fst (json_post_orders sample_builtins E0 json_db1 (Some (ascii ''sid-1''))
      readme_order)) = 201"
    by (simp add: json_after_first_eq reply_def)
  have s: "status (fst (sql_post_orders sample_builtins E0 sql_db1 (Some (ascii ''sid-1''))
      readme_order)) = 201"
    by (simp add: sql_after_first_eq reply_def)
  have e: "users json_db1 = [alice]" "orders json_db1 = []" "users_tbl sql_db1 = [alice]"
    "orders_tbl sql_db1 = []"
    by (simp_all add: json_db1_def sql_db1_def)
  have t: "map or_id (orders_tbl (snd (sql_post_orders sample_builtins E0 sql_db1
      (Some (ascii ''sid-1'')) readme_order))) = [ascii ''DDD-1735689600000'']"
    "map oi_order_id (order_items_tbl (snd (sql_post_orders sample_builtins E0 sql_db1
      (Some (ascii ''sid-1'')) readme_order))) = [ascii ''DDD-1735689600000'']"
    by (simp_all add: sql_after_first_eq)
  from place_order_frame [of sample_builtins E0 json_db1 "Some (ascii ''sid-1'')" readme_order
      sql_db1] j s e t
  show ?thesis by auto
qed




text \<open>
  What the check of \<^verbatim>\<open>POST /orders\<close> does refuse: a customer whose name, phone or address
  is falsy (absent, null, the empty string) and a request without items are answered
  400 once the user is known, and nothing is stored.
\<close>

lemma post_orders_rejects_missing:
  assumes "customer_missing (request_customer req_body) \<or> request_items req_body = []"
  shows "(json_getUserFromSession db c \<noteq> None \<longrightarrow>
            status (fst (json_post_orders B E db c req_body)) = 400)
       \<and> snd (json_post_orders B E db c req_body) = db
       \<and> (sql_getUserFromSession st c2 \<noteq> None \<longrightarrow>
            status (fst (sql_post_orders B E st c2 req_body)) = 400)
       \<and> snd (sql_post_orders B E st c2 req_body) = st"
  using assms
  by (auto simp add: json_post_orders_def sql_post_orders_def json_getUserFromSession_def
      Let_def reply_def split: option.splits if_splits)

text \<open>
  C3 at a failing input. The customer name is three spaces: truthy, so the check
  \<^verbatim>\<open>!customer.name\<close> passes, and empty once trimmed. Both variants answer 201 and store
  an order whose customer name is the empty string.
\<close>

theorem whitespace_name_order_accepted:
  "trim (ascii ''   '') = []
   \<and> status (fst (json_post_orders sample_builtins E0 json_db1 (Some (ascii ''sid-1''))
        blank_name_order)) = 201
   \<and> map (cust_name \<circ> order_customer) (orders (snd (json_post_orders sample_builtins E0
        json_db1 (Some (ascii ''sid-1'')) blank_name_order))) = [[]]
   \<and> status (fst (sql_post_orders sample_builtins E0 sql_db1 (Some (ascii ''sid-1''))
        blank_name_order)) = 201
   \<and> map (cust_name \<circ> or_customer) (orders_tbl (snd (sql_post_orders sample_builtins E0
        sql_db1 (Some (ascii ''sid-1'')) blank_name_order))) = [[]]"
  by (simp add: json_post_orders_def sql_post_orders_def request_defs order_defs example_defs
      more_defs coercion_defs Let_def)

text \<open>
  C9 at a failing input. Two requests of alice read the same \<^verbatim>\<open>Date.now()\<close>. The file
  variant answers both with 201 and stores two orders under the one id; SQLite refuses
  the second INSERT on its PRIMARY KEY, answers 500 and leaves the store as it was.
\<close>

theorem same_tick_orders_share_id:
  "status (fst (json_post_orders sample_builtins E0 json_db1 (Some (ascii ''sid-1''))
      readme_order)) = 201
   \<and> status (fst (json_post_orders sample_builtins E0 json_after_first (Some (ascii ''sid-1''))
      readme_order)) = 201
   \<and> map order_id (orders (snd (json_post_orders sample_builtins E0 json_after_first
      (Some (ascii ''sid-1'')) readme_order))) =
       [ascii ''DDD-1735689600000'', ascii ''DDD-1735689600000'']
   \<and> sql_post_orders sample_builtins E0 sql_after_first (Some (ascii ''sid-1'')) readme_order =
       (internal_error, sql_after_first)"
  apply (simp add: json_after_first_def sql_after_first_def json_after_first_eq sql_after_first_eq)
  apply (simp add: json_post_orders_def sql_post_orders_def Let_def order_id_sample request_defs
      order_defs example_defs more_defs coercion_defs shiva_def)
  done

text \<open>
  SQLite keeps its keys through \<^verbatim>\<open>POST /orders\<close>: the order ids stay distinct, and the
  item rows stay in increasing \<^verbatim>\<open>id\<close>, since AUTOINCREMENT gives each new row an id above
  all the others.
\<close>

lemma fold_max_ge: "a \<le> fold max xs a \<and> (\<forall>x \<in> set xs. x \<le> fold max xs (a::nat))"
proof (induction xs arbitrary: a)
  case Nil
  then show ?case by simp
next
  case (Cons y ys)
  from Cons.IH [of "max y a"] show ?case by auto
qed

lemma next_item_id_greater: "\<forall>x \<in> set (map oi_id (order_items_tbl st)). x < next_item_id st"
  using fold_max_ge [of "item_seq st" "map oi_id (order_items_tbl st)"]
  by (auto simp add: next_item_id_def less_Suc_eq_le)

lemma insert_items_sorted:
  assumes "insert_items B st orderId items = Inr st1"
    and "sorted_wrt (<) (map oi_id (order_items_tbl st))"
  shows "sorted_wrt (<) (map oi_id (order_items_tbl st1))"
  using assms
proof (induction items arbitrary: st)
  case Nil
  then show ?case by simp
next
  case (Cons it items)
  from Cons.prems(1) obtain i st2 where st2: "insert_order_item st orderId i = Inr st2"
    and rest: "insert_items B st2 orderId items = Inr st1"
    by (auto simp add: and_then_Inr_iff)
  from insert_order_item_Inr [OF st2] Cons.prems(2) next_item_id_greater [of st]
  have "sorted_wrt (<) (map oi_id (order_items_tbl st2))"
    by (simp add: sorted_wrt_append)
  with rest show ?case by (rule Cons.IH)
qed

lemma sql_post_orders_keeps_keys:
  assumes "distinct (map or_id (orders_tbl st))"
    and "sorted_wrt (<) (map oi_id (order_items_tbl st))"
  shows "distinct (map or_id (orders_tbl (snd (sql_post_orders B E st c req_body))))
       \<and> sorted_wrt (<) (map oi_id (order_items_tbl (snd (sql_post_orders B E st c req_body))))"
proof (cases "status (fst (sql_post_orders B E st c req_body)) = 201")
  case False
  from sql_post_orders_other [OF False] assms show ?thesis by simp
next
  case True
  let ?st1 = "snd (sql_post_orders B E st c req_body)"
  from sql_post_orders_created [OF surjective_pairing True] obtain u :: user_view where
    t: "order_transaction B st (order_id_of B (Date_now E)) (uv_id u) (toISOString1 E)
          (request_customer req_body) (request_items req_body) = Inr ?st1"
    by auto
  from order_transaction_Inr [OF t] assms(1)
  have d: "distinct (map or_id (orders_tbl ?st1))" by auto
  from t obtain cust st2 where
    o: "insert_order st \<lparr>or_id = order_id_of B (Date_now E), or_user_id = uv_id u,
              or_created_at = toISOString1 E, or_customer = cust\<rparr> = Inr st2"
    and i: "insert_items B st2 (order_id_of B (Date_now E)) (request_items req_body) = Inr ?st1"
    by (auto simp add: order_transaction_def and_then_Inr_iff)
  from o have "order_items_tbl st2 = order_items_tbl st"
    by (auto simp add: insert_order_def split: if_splits)
  with assms(2) insert_items_sorted [OF i] have "sorted_wrt (<) (map oi_id (order_items_tbl ?st1))"
    by simp
  with d show ?thesis by simp
qed

section \<open>Resolving the session\<close>

text \<open>
  When \<^verbatim>\<open>getUserFromSession\<close> finds no user, \<^verbatim>\<open>GET /auth/me\<close> and \<^verbatim>\<open>POST /orders\<close> of the
  file variant and the three protected routes of SQLite answer 401, and leave the store
  as it was. It finds no user when the cookie is absent or empty, when no session has
  the id, and when the session's user is not stored.
\<close>

lemma json_no_user:
  assumes "json_getUserFromSession db c = None"
  shows "json_get_auth_me db c = not_authenticated
       \<and> json_post_orders B E db c req_body = (not_authenticated, db)"
  using assms
  by (auto simp add: json_get_auth_me_def json_post_orders_def json_getUserFromSession_def
      Let_def split: option.splits if_splits)

lemma sql_no_user:
  assumes "sql_getUserFromSession st c = None"
  shows "sql_get_auth_me st c = not_authenticated
       \<and> sql_post_orders B E st c req_body = (not_authenticated, st)
       \<and> sql_get_orders_me st c = not_authenticated"
  using assms
  by (simp add: sql_get_auth_me_def sql_post_orders_def sql_get_orders_me_def)

lemma json_getUserFromSession_None:
  assumes "c = None \<or> c = Some []
      \<or> (\<exists>sid. c = Some sid \<and> property_of (sessions db) sid = Absent)
      \<or> (\<exists>sid s. c = Some sid \<and> sessions db sid = Some s
            \<and> session_userId s \<notin> user_id ` set (users db))"
  shows "json_getUserFromSession db c = None"
proof (cases "json_getUserFromSession db c")
  case None
  then show ?thesis .
next
  case (Some u)
  then obtain sid where c: "c = Some sid" and ne: "sid \<noteq> []"
    and p: "property_of (sessions db) sid \<noteq> Absent"
    and u: "find (\<lambda>u. Some (user_id u) = userId_of (property_of (sessions db) sid)) (users db)
        = Some u"
    by (auto simp add: json_getUserFromSession_def Let_def split: option.splits if_splits)
  from find_Some_mem [OF u]
  have m: "u \<in> set (users db)" and i: "Some (user_id u) = userId_of (property_of (sessions db) sid)"
    by auto
  from i obtain s where "sessions db sid = Some s" and "session_userId s = user_id u"
    by (auto simp add: property_of_def split: option.splits if_splits)
  with m have "\<exists>s. sessions db sid = Some s \<and> session_userId s \<in> user_id ` set (users db)"
    by auto
  with assms c ne p show ?thesis by auto
qed

lemma sql_getUserFromSession_None:
  assumes "c = None \<or> c = Some []
      \<or> (\<exists>sid. c = Some sid \<and> sid \<notin> sr_id ` set (sessions_tbl st))
      \<or> (\<exists>sid. c = Some sid \<and> (\<forall>s \<in> set (sessions_tbl st). sr_id s = sid \<longrightarrow>
            sr_user_id s \<notin> user_id ` set (users_tbl st)))"
  shows "sql_getUserFromSession st c = None"
proof (cases "sql_getUserFromSession st c")
  case None
  then show ?thesis .
next
  case (Some u)
  then obtain sid s v where c: "c = Some sid" and ne: "sid \<noteq> []"
    and s: "find (\<lambda>s. sr_id s = sid) (sessions_tbl st) = Some s"
    and v: "find (\<lambda>u. user_id u = sr_user_id s) (users_tbl st) = Some v"
    by (auto simp add: sql_getUserFromSession_def split: option.splits if_splits)
  from find_Some_mem [OF s] find_Some_mem [OF v]
  have "s \<in> set (sessions_tbl st)" "sr_id s = sid" "sr_user_id s \<in> user_id ` set (users_tbl st)"
    by (auto intro: rev_image_eqI)
  with assms c ne show ?thesis by (auto intro: rev_image_eqI)
qed

text \<open>
  C7 at two failing inputs, both on \<^verbatim>\<open>GET /orders/me\<close> of the file variant, which tests
  \<^verbatim>\<open>db.sessions[sessionId]\<close> and never looks the user up. With the cookie
  \<^verbatim>\<open>constructor\<close>, which is no session of the store, the lookup finds the property that
  every object inherits, and the answer is 200 with no orders. With a session whose user
  is gone the answer is 200 as well, where \<^verbatim>\<open>POST /orders\<close> answers 401.
\<close>

theorem orders_me_without_user:
  "sessions json_db1 (ascii ''constructor'') = None
   \<and> json_getUserFromSession json_db1 (Some (ascii ''constructor'')) = None
   \<and> json_get_orders_me json_db1 (Some (ascii ''constructor'')) = reply 200 (Orders [])
   \<and> json_getUserFromSession orphan_json_db (Some (ascii ''sid-9'')) = None
   \<and> status (json_get_orders_me orphan_json_db (Some (ascii ''sid-9''))) = 200
   \<and> fst (json_post_orders sample_builtins E0 orphan_json_db (Some (ascii ''sid-9''))
        readme_order) = not_authenticated"
  by (simp add: json_get_orders_me_def json_getUserFromSession_def json_post_orders_def
      property_of_def object_prototype_keys_def example_defs more_defs ascii_def Let_def
      reply_def)

section \<open>Listing the orders\<close>

subsection \<open>The sort\<close>

lemma item_key_le_total: "item_key_le a b \<or> item_key_le b a"
  by (cases a; cases b) auto

lemma item_key_le_trans: "item_key_le a b \<Longrightarrow> item_key_le b c \<Longrightarrow> item_key_le a c"
  by (cases a; cases b; cases c) auto

lemma row_le_total: "row_le a b \<or> row_le b a"
  using item_key_le_total [of "snd a" "snd b"]
  by (auto simp add: row_le_def)

lemma row_le_trans: "row_le a b \<Longrightarrow> row_le b c \<Longrightarrow> row_le a c"
  using item_key_le_trans [of "snd a" "snd b" "snd c"]
  by (auto simp add: row_le_def)

lemma set_insert_row: "set (insert_row r xs) = insert r (set xs)"
  by (induction xs) auto

lemma sorted_insert_row:
  "sorted_wrt row_le xs \<Longrightarrow> sorted_wrt row_le (insert_row r xs)"
proof (induction xs)
  case Nil
  then show ?case by simp
next
  case (Cons x xs)
  show ?case
  proof (cases "row_le r x")
    case True
    with Cons.prems show ?thesis
      by (auto intro: row_le_trans)
  next
    case False
    with row_le_total [of r x] have "row_le x r" by simp
    with False Cons show ?thesis
      by (auto simp add: set_insert_row)
  qed
qed

lemma sorted_order_by: "sorted_wrt row_le (order_by xs)"
  by (induction xs) (simp_all add: order_by_def sorted_insert_row)

lemma set_order_by: "set (order_by xs) = set xs"
  by (induction xs) (simp_all add: order_by_def set_insert_row)

lemma insert_row_Cons: "\<forall>x \<in> set xs. row_le r x \<Longrightarrow> insert_row r xs = r # xs"
  by (cases xs) simp_all

lemma order_by_sorted: "sorted_wrt row_le xs \<Longrightarrow> order_by xs = xs"
proof (induction xs)
  case Nil
  then show ?case by (simp add: order_by_def)
next
  case (Cons x xs)
  then have "order_by xs = xs" and "\<forall>y \<in> set xs. row_le x y" by simp_all
  then show ?case
    by (simp add: order_by_def insert_row_Cons)
qed

lemma filter_insert_row_out: "\<not> P r \<Longrightarrow> filter P (insert_row r xs) = filter P xs"
  by (induction xs) simp_all

lemma filter_insert_row_in:
  "sorted_wrt row_le xs \<Longrightarrow> P r \<Longrightarrow> filter P (insert_row r xs) = insert_row r (filter P xs)"
proof (induction xs)
  case Nil
  then show ?case by simp
next
  case (Cons x xs)
  show ?case
  proof (cases "row_le r x")
    case True
    with Cons.prems have "\<forall>y \<in> set (filter P (x # xs)). row_le r y"
      by (auto intro: row_le_trans)
    then have "insert_row r (filter P (x # xs)) = r # filter P (x # xs)"
      by (rule insert_row_Cons)
    with True Cons.prems show ?thesis by simp
  next
    case False
    with Cons show ?thesis by simp
  qed
qed

lemma filter_order_by: "filter P (order_by xs) = order_by (filter P xs)"
proof (induction xs)
  case Nil
  then show ?case by (simp add: order_by_def)
next
  case (Cons x xs)
  have s: "sorted_wrt row_le (foldr insert_row xs [])"
    using sorted_order_by [of xs] by (simp add: order_by_def)
  from Cons show ?case
    by (cases "P x") (simp_all add: order_by_def filter_insert_row_in [OF s] filter_insert_row_out)
qed

subsection \<open>The grouping loop\<close>

lemma map_ov_id_push_item [simp]: "map ov_id (push_item k i m) = map ov_id m"
  by (induction m) (simp_all add: push_item_def)

lemma map_ov_createdAt_push_item [simp]:
  "map ov_createdAt (push_item k i m) = map ov_createdAt m"
  by (induction m) (simp_all add: push_item_def)

lemma items_pushed_snoc: "items_pushed k (rows @ [r]) = items_pushed k rows @ pushed k r"
  by (simp add: items_pushed_def)

lemma map_ov_id_add_row:
  "map ov_id (add_row m r) =
     (if or_id (fst r) \<in> set (map ov_id m) then map ov_id m else map ov_id m @ [or_id (fst r)])"
  by (simp add: add_row_def Let_def order_header_def split: option.splits)

lemma map_ov_createdAt_add_row:
  "map ov_createdAt (add_row m r) =
     (if or_id (fst r) \<in> set (map ov_id m) then map ov_createdAt m
      else map ov_createdAt m @ [or_created_at (fst r)])"
  by (simp add: add_row_def Let_def order_header_def split: option.splits)

text \<open>The entries of the map after one more row.\<close>

lemma in_set_push_item:
  "v \<in> set (push_item k i m) \<longleftrightarrow>
     (\<exists>w \<in> set m. v = (if ov_id w = k then w\<lparr>ov_items := ov_items w @ [i]\<rparr> else w))"
  unfolding push_item_def set_map image_iff by blast

lemma in_set_add_row:
  assumes "v \<in> set (add_row m r)"
  shows "\<exists>w. (w \<in> set m \<or> (or_id (fst r) \<notin> ov_id ` set m \<and> w = order_header (fst r)))
           \<and> ov_id v = ov_id w \<and> ov_createdAt v = ov_createdAt w
           \<and> ov_customer v = ov_customer w
           \<and> ov_items v = ov_items w @
                (if ov_id w = or_id (fst r) then pushed (or_id (fst r)) r else [])"
proof -
  let ?m1 = "if or_id (fst r) \<in> ov_id ` set m then m else m @ [order_header (fst r)]"
  have m1: "\<And>w. w \<in> set ?m1 \<Longrightarrow>
      w \<in> set m \<or> (or_id (fst r) \<notin> ov_id ` set m \<and> w = order_header (fst r))"
    by (auto split: if_splits)
  show ?thesis
  proof (cases "pushed (or_id (fst r)) r")
    case Nil
    then have "add_row m r = ?m1"
      by (auto simp add: add_row_def Let_def pushed_def split: option.splits if_splits)
    with assms have "v \<in> set ?m1" by simp
    from m1 [OF this] Nil show ?thesis by auto
  next
    case (Cons i rest)
    then have p: "pushed (or_id (fst r)) r = [i]"
      and "add_row m r = push_item (or_id (fst r)) i ?m1"
      by (auto simp add: add_row_def Let_def pushed_def split: option.splits if_splits)
    with assms obtain w where w: "w \<in> set ?m1"
      and v: "v = (if ov_id w = or_id (fst r) then w\<lparr>ov_items := ov_items w @ [i]\<rparr> else w)"
      by (auto simp add: in_set_push_item)
    from m1 [OF w] v p show ?thesis
      by (intro exI [of _ w]) auto
  qed
qed

lemma pushed_other: "or_id (fst r) \<noteq> k \<Longrightarrow> pushed k r = []"
  by (simp add: pushed_def split: option.splits)

lemma items_pushed_absent:
  "k \<notin> (or_id \<circ> fst) ` set rows \<Longrightarrow> items_pushed k rows = []"
  by (induction rows) (auto simp add: items_pushed_def pushed_other)

lemma group_rows:
  "distinct (map ov_id (foldl add_row [] rows))
   \<and> set (map ov_id (foldl add_row [] rows)) = (or_id \<circ> fst) ` set rows
   \<and> (\<forall>v \<in> set (foldl add_row [] rows).
        ov_items v = items_pushed (ov_id v) rows
        \<and> (\<exists>r \<in> set rows. ov_id v = or_id (fst r) \<and> ov_createdAt v = or_created_at (fst r)
              \<and> ov_customer v = or_customer (fst r)))"
proof (induction rows rule: rev_induct)
  case Nil
  then show ?case by simp
next
  case (snoc r rows)
  let ?m = "foldl add_row [] rows"
  from snoc have d: "distinct (map ov_id ?m)"
    and s: "set (map ov_id ?m) = (or_id \<circ> fst) ` set rows"
    and e: "\<And>v. v \<in> set ?m \<Longrightarrow> ov_items v = items_pushed (ov_id v) rows
        \<and> (\<exists>r \<in> set rows. ov_id v = or_id (fst r) \<and> ov_createdAt v = or_created_at (fst r)
              \<and> ov_customer v = or_customer (fst r))"
    by simp_all
  have 1: "distinct (map ov_id (add_row ?m r))"
    using d by (simp add: map_ov_id_add_row)
  have 2: "set (map ov_id (add_row ?m r)) = (or_id \<circ> fst) ` set (rows @ [r])"
    using s by (auto simp add: map_ov_id_add_row)
  have 3: "ov_items v = items_pushed (ov_id v) (rows @ [r])
        \<and> (\<exists>r' \<in> set (rows @ [r]). ov_id v = or_id (fst r')
              \<and> ov_createdAt v = or_created_at (fst r') \<and> ov_customer v = or_customer (fst r'))"
    if "v \<in> set (add_row ?m r)" for v
  proof -
    from in_set_add_row [OF that] obtain w where
      w: "w \<in> set ?m \<or> (or_id (fst r) \<notin> ov_id ` set ?m \<and> w = order_header (fst r))"
      and f: "ov_id v = ov_id w" "ov_createdAt v = ov_createdAt w" "ov_customer v = ov_customer w"
      and i: "ov_items v = ov_items w @
                (if ov_id w = or_id (fst r) then pushed (or_id (fst r)) r else [])"
      by blast
    from w show ?thesis
    proof
      assume "w \<in> set ?m"
      from e [OF this] f i show ?thesis
        by (auto simp add: items_pushed_snoc pushed_other)
    next
      assume n: "or_id (fst r) \<notin> ov_id ` set ?m \<and> w = order_header (fst r)"
      with s have "or_id (fst r) \<notin> (or_id \<circ> fst) ` set rows" by simp
      then have "items_pushed (or_id (fst r)) rows = []"
        by (rule items_pushed_absent)
      with n f i show ?thesis
        by (simp add: items_pushed_snoc order_header_def)
    qed
  qed
  from 1 2 3 show ?case by simp
qed

lemma group_rows_sorted:
  assumes "sorted_wrt (\<lambda>a b. or_created_at (fst a) \<ge> or_created_at (fst b)) rows"
  shows "sorted_wrt (\<ge>) (map ov_createdAt (foldl add_row [] rows))"
  using assms
proof (induction rows rule: rev_induct)
  case Nil
  then show ?case by simp
next
  case (snoc r rows)
  let ?m = "foldl add_row [] rows"
  from snoc.prems have sorted: "sorted_wrt (\<lambda>a b. or_created_at (fst a) \<ge> or_created_at (fst b)) rows"
    and last: "\<forall>x \<in> set rows. or_created_at (fst x) \<ge> or_created_at (fst r)"
    by (simp_all add: sorted_wrt_append)
  from snoc.IH [OF sorted] have m: "sorted_wrt (\<ge>) (map ov_createdAt ?m)" .
  have "\<forall>c \<in> set (map ov_createdAt ?m). c \<ge> or_created_at (fst r)"
  proof
    fix c assume "c \<in> set (map ov_createdAt ?m)"
    then obtain v where v: "v \<in> set ?m" and c: "c = ov_createdAt v" by auto
    from group_rows [of rows] v obtain x where "x \<in> set rows"
      and "ov_createdAt v = or_created_at (fst x)" by blast
    with last c show "c \<ge> or_created_at (fst r)" by simp
  qed
  with m show ?case
    by (simp add: map_ov_createdAt_add_row sorted_wrt_append)
qed

subsection \<open>The join\<close>


lemma left_join_Cons: "left_join (ord # os) is = order_rows ord is @ left_join os is"
  by (simp add: left_join_def order_rows_def)

lemma left_join_Nil: "left_join [] is = []"
  by (simp add: left_join_def)

lemma fst_order_rows: "fst ` set (order_rows ord is) = {ord}"
  by (auto simp add: order_rows_def image_iff split: list.splits)

lemma fst_left_join: "fst ` set (left_join os is) = set os"
  by (induction os) (simp_all add: left_join_Nil left_join_Cons image_Un fst_order_rows)

lemma pushed_order_rows_other:
  "k \<noteq> or_id ord \<Longrightarrow> filter (\<lambda>r. pushed k r \<noteq> []) (order_rows ord is) = []"
  by (auto simp add: order_rows_def filter_empty_conv pushed_def split: list.splits)

lemma pushed_order_rows_same:
  assumes "\<forall>i \<in> set is. oi_order_id i = or_id ord \<longrightarrow> oi_product_id i \<noteq> []"
  shows "filter (\<lambda>r. pushed (or_id ord) r \<noteq> []) (order_rows ord is) =
         map (\<lambda>i. (ord, Some i)) (filter (\<lambda>i. oi_order_id i = or_id ord) is)"
proof (cases "filter (\<lambda>i. oi_order_id i = or_id ord) is")
  case Nil
  then show ?thesis by (simp add: order_rows_def pushed_def)
next
  case (Cons j js)
  have "set (j # js) = {i \<in> set is. oi_order_id i = or_id ord}"
    unfolding Cons [symmetric] by simp
  with assms have "\<forall>i \<in> set (j # js). oi_product_id i \<noteq> []"
    by blast
  then have "filter (\<lambda>r. pushed (or_id ord) r \<noteq> []) (map (\<lambda>i. (ord, Some i)) (j # js)) =
      map (\<lambda>i. (ord, Some i)) (j # js)"
    unfolding filter_id_conv by (auto simp add: pushed_def)
  with Cons show ?thesis by (simp add: order_rows_def)
qed

lemma pushed_left_join_absent:
  "k \<notin> or_id ` set os \<Longrightarrow> filter (\<lambda>r. pushed k r \<noteq> []) (left_join os is) = []"
  by (induction os) (simp_all add: left_join_Nil left_join_Cons pushed_order_rows_other)

lemma pushed_left_join:
  assumes "distinct (map or_id os)" and "ord \<in> set os"
    and "\<forall>i \<in> set is. oi_order_id i = or_id ord \<longrightarrow> oi_product_id i \<noteq> []"
  shows "filter (\<lambda>r. pushed (or_id ord) r \<noteq> []) (left_join os is) =
         map (\<lambda>i. (ord, Some i)) (filter (\<lambda>i. oi_order_id i = or_id ord) is)"
  using assms(1,2)
proof (induction os)
  case Nil
  then show ?case by simp
next
  case (Cons x os)
  show ?case
  proof (cases "x = ord")
    case True
    with Cons.prems have "or_id ord \<notin> or_id ` set os" by simp
    from pushed_left_join_absent [OF this] True show ?thesis
      by (simp add: left_join_Cons pushed_order_rows_same [OF assms(3)])
  next
    case False
    with Cons.prems have "ord \<in> set os" and "or_id ord \<noteq> or_id x" and "distinct (map or_id os)"
      by (auto simp add: image_iff)
    with Cons.IH show ?thesis
      by (simp add: left_join_Cons pushed_order_rows_other)
  qed
qed

lemma sorted_item_rows:
  assumes "sorted_wrt (<) (map oi_id is)"
  shows "sorted_wrt row_le (map (\<lambda>i. (ord, Some i)) (filter P is))"
proof -
  from assms have "sorted_wrt (\<lambda>i j. oi_id i < oi_id j) is"
    by (simp add: sorted_wrt_map)
  then have "sorted_wrt (\<lambda>i j. oi_id i < oi_id j) (filter P is)"
    by (rule sorted_wrt_filter)
  then have "sorted_wrt (\<lambda>i j. row_le (ord, Some i) (ord, Some j)) (filter P is)"
    by (rule sorted_wrt_mono_rel [rotated]) (simp add: row_le_def)
  then show ?thesis by (simp add: sorted_wrt_map)
qed

lemma concat_map_nonempty: "concat (map f xs) = concat (map f (filter (\<lambda>x. f x \<noteq> []) xs))"
  by (induction xs) simp_all

lemma concat_map_singleton: "\<forall>x \<in> set xs. f x = [g x] \<Longrightarrow> concat (map f xs) = map g xs"
  by (induction xs) simp_all

lemma items_pushed_select:
  assumes "distinct (map or_id os)" and "ord \<in> set os"
    and "\<forall>i \<in> set is. oi_order_id i = or_id ord \<longrightarrow> oi_product_id i \<noteq> []"
    and "sorted_wrt (<) (map oi_id is)"
  shows "items_pushed (or_id ord) (order_by (left_join os is)) =
         map row_item (filter (\<lambda>i. oi_order_id i = or_id ord) is)"
proof -
  let ?k = "or_id ord"
  let ?T = "filter (\<lambda>i. oi_order_id i = ?k) is"
  have "filter (\<lambda>r. pushed ?k r \<noteq> []) (order_by (left_join os is)) =
      order_by (map (\<lambda>i. (ord, Some i)) ?T)"
    by (simp add: filter_order_by pushed_left_join [OF assms(1-3)])
  also have "\<dots> = map (\<lambda>i. (ord, Some i)) ?T"
    by (rule order_by_sorted) (rule sorted_item_rows [OF assms(4)])
  finally have "items_pushed ?k (order_by (left_join os is)) =
      concat (map (\<lambda>i. pushed ?k (ord, Some i)) ?T)"
    by (simp add: items_pushed_def comp_def
        concat_map_nonempty [of "pushed ?k" "order_by (left_join os is)"])
  also have "\<dots> = map row_item ?T"
    using assms(3) by (intro concat_map_singleton) (simp add: pushed_def)
  finally show ?thesis .
qed

lemma created_sorted_order_by:
  "sorted_wrt (\<lambda>a b. or_created_at (fst a) \<ge> or_created_at (fst b)) (order_by xs)"
  by (rule sorted_wrt_mono_rel [OF _ sorted_order_by]) (auto simp add: row_le_def)

subsection \<open>The listing\<close>

text \<open>
  C1, as the code has it. For a session of the store, the file variant answers 200 with
  the orders whose \<^verbatim>\<open>userId\<close> is the session's, in the order in which they were stored,
  each as stored. For a session that resolves to a user, SQLite answers 200 with one
  order per order row of that user and no other, sorted by \<^verbatim>\<open>created_at\<close> from the latest
  to the earliest, each with the id, the date and the customer columns of its row. The
  items of an order are its item rows in the order of their insertion, for every order
  whose item rows all have a product id that is not empty, when the order ids are
  distinct (PRIMARY KEY) and the item rows are in increasing \<^verbatim>\<open>id\<close> (AUTOINCREMENT). The
  items of an order that has a row with an empty product id are left out of this
  statement.
\<close>

theorem list_my_orders:
  assumes "sessionId \<noteq> []" and "sessions db sessionId = Some s"
    and "sql_getUserFromSession st c = Some u"
  shows "json_get_orders_me db (Some sessionId) =
           \<lparr>status = 200,
            body = Orders (map sanitizeOrder
              (filter (\<lambda>ord. order_userId ord = session_userId s) (orders db))),
            cookie = NoCookie\<rparr>
       \<and> (\<exists>vs. sql_get_orders_me st c = \<lparr>status = 200, body = Orders vs, cookie = NoCookie\<rparr>
            \<and> distinct (map ov_id vs)
            \<and> set (map ov_id vs) =
                or_id ` {ord \<in> set (orders_tbl st). or_user_id ord = uv_id u}
            \<and> sorted_wrt (\<lambda>a b. ov_createdAt a \<ge> ov_createdAt b) vs
            \<and> (\<forall>v \<in> set vs. \<exists>ord \<in> set (orders_tbl st). or_user_id ord = uv_id u
                  \<and> ov_id v = or_id ord \<and> ov_createdAt v = or_created_at ord
                  \<and> ov_customer v = or_customer ord
                  \<and> (distinct (map or_id (orders_tbl st))
                       \<and> sorted_wrt (<) (map oi_id (order_items_tbl st))
                       \<and> (\<forall>i \<in> set (order_items_tbl st).
                             oi_order_id i = or_id ord \<longrightarrow> oi_product_id i \<noteq> [])
                      \<longrightarrow> ov_items v = map row_item
                            (filter (\<lambda>i. oi_order_id i = or_id ord) (order_items_tbl st)))))"
proof -
  have json: "json_get_orders_me db (Some sessionId) =
           \<lparr>status = 200,
            body = Orders (map sanitizeOrder
              (filter (\<lambda>ord. order_userId ord = session_userId s) (orders db))),
            cookie = NoCookie\<rparr>"
    using assms(1,2) by (simp add: json_get_orders_me_def property_of_def reply_def)
  let ?os = "filter (\<lambda>ord. or_user_id ord = uv_id u) (orders_tbl st)"
  let ?is = "order_items_tbl st"
  let ?R = "order_by (left_join ?os ?is)"
  let ?vs = "foldl add_row [] ?R"
  have resp: "sql_get_orders_me st c = \<lparr>status = 200, body = Orders ?vs, cookie = NoCookie\<rparr>"
    using assms(3) by (simp add: sql_get_orders_me_def select_orders_def reply_def)
  have rows: "fst ` set ?R = set ?os"
    by (simp add: set_order_by fst_left_join)
  note g = group_rows [of ?R]
  from g have d: "distinct (map ov_id ?vs)" by simp
  from g have "set (map ov_id ?vs) = or_id ` fst ` set ?R"
    by (simp add: image_comp)
  with rows have ids: "set (map ov_id ?vs) =
      or_id ` {ord \<in> set (orders_tbl st). or_user_id ord = uv_id u}"
    by simp
  have "sorted_wrt (\<ge>) (map ov_createdAt ?vs)"
    by (rule group_rows_sorted) (rule created_sorted_order_by)
  then have sorted: "sorted_wrt (\<lambda>a b. ov_createdAt a \<ge> ov_createdAt b) ?vs"
    by (simp add: sorted_wrt_map)
  have each: "\<exists>ord \<in> set (orders_tbl st). or_user_id ord = uv_id u
                  \<and> ov_id v = or_id ord \<and> ov_createdAt v = or_created_at ord
                  \<and> ov_customer v = or_customer ord
                  \<and> (distinct (map or_id (orders_tbl st))
                       \<and> sorted_wrt (<) (map oi_id (order_items_tbl st))
                       \<and> (\<forall>i \<in> set (order_items_tbl st).
                             oi_order_id i = or_id ord \<longrightarrow> oi_product_id i \<noteq> [])
                      \<longrightarrow> ov_items v = map row_item
                            (filter (\<lambda>i. oi_order_id i = or_id ord) (order_items_tbl st)))"
    if "v \<in> set ?vs" for v
  proof -
    from g that obtain r where r: "r \<in> set ?R"
      and i: "ov_items v = items_pushed (ov_id v) ?R"
      and f: "ov_id v = or_id (fst r)" "ov_createdAt v = or_created_at (fst r)"
        "ov_customer v = or_customer (fst r)"
      by blast
    from r rows have m: "fst r \<in> set ?os" by blast
    have "ov_items v = map row_item (filter (\<lambda>i. oi_order_id i = or_id (fst r)) ?is)"
      if k: "distinct (map or_id (orders_tbl st))"
        and a: "sorted_wrt (<) (map oi_id ?is)"
        and n: "\<forall>i \<in> set ?is. oi_order_id i = or_id (fst r) \<longrightarrow> oi_product_id i \<noteq> []"
    proof -
      from k have "distinct (map or_id ?os)" by (rule distinct_map_filter)
      from items_pushed_select [OF this m n a] i f show ?thesis by simp
    qed
    with m f show ?thesis by auto
  qed
  from resp d ids sorted each show ?thesis
    unfolding json by (intro conjI exI [of _ ?vs] ballI) (simp_all only: simp_thms)
qed

text \<open>
  Two orders of alice a day apart. In SQLite the first is the order whose item has no
  id, the second has two items with ids: both are listed, the later first, and the
  second with its two items in the order of the request.
\<close>

theorem list_my_orders_witness:
  "sessions json_after_second (ascii ''sid-1'') =
     Some \<lparr>session_userId = ascii ''u-alice'',
           session_createdAt = ascii ''2024-12-31T08:00:00.000Z''\<rparr>
   \<and> map ov_id (case body (json_get_orders_me json_after_second (Some (ascii ''sid-1''))) of
        Orders vs \<Rightarrow> vs | _ \<Rightarrow> []) = [ascii ''DDD-1735689600000'', ascii ''DDD-1735776000000'']
   \<and> sql_getUserFromSession sql_after_no_id_second (Some (ascii ''sid-1'')) =
        Some (sanitizeUser alice)
   \<and> map or_id (orders_tbl sql_after_no_id_second) =
        [ascii ''DDD-1735689600000'', ascii ''DDD-1735776000000'']
   \<and> map oi_id (order_items_tbl sql_after_no_id_second) = [1, 2, 3]
   \<and> map oi_product_id (order_items_tbl sql_after_no_id_second) =
        [[], ascii ''prd-1'', ascii ''prd-2'']
   \<and> map oi_order_id (order_items_tbl sql_after_no_id_second) =
        [ascii ''DDD-1735689600000'', ascii ''DDD-1735776000000'', ascii ''DDD-1735776000000'']
   \<and> status (sql_get_orders_me sql_after_no_id_second (Some (ascii ''sid-1''))) = 200
   \<and> map ov_id (case body (sql_get_orders_me sql_after_no_id_second (Some (ascii ''sid-1''))) of
        Orders vs \<Rightarrow> vs | _ \<Rightarrow> []) = [ascii ''DDD-1735776000000'', ascii ''DDD-1735689600000'']
   \<and> map (map item_id \<circ> ov_items)
        (case body (sql_get_orders_me sql_after_no_id_second (Some (ascii ''sid-1''))) of
           Orders vs \<Rightarrow> vs | _ \<Rightarrow> []) = [[ascii ''prd-1'', ascii ''prd-2''], []]"
proof -
  have j2: "json_after_second = json_db1\<lparr>orders :=
      [\<lparr>order_id = ascii ''DDD-1735689600000'',
        order_createdAt = ascii ''2025-01-01T00:00:00.000Z'',
        order_userId = ascii ''u-alice'', order_customer = shiva,
        order_items = [\<lparr>item_id = ascii ''prd-1'', item_title = ascii ''Instrument 01'',
                     item_category = ascii ''Accessories'', item_qty = Some 1\<rparr>]\<rparr>,
       \<lparr>order_id = ascii ''DDD-1735776000000'',
        order_createdAt = ascii ''2025-01-02T00:00:00.000Z'',
        order_userId = ascii ''u-alice'', order_customer = shiva,
        order_items = [\<lparr>item_id = ascii ''prd-1'', item_title = ascii ''Instrument 01'',
                     item_category = ascii ''Accessories'', item_qty = Some 0\<rparr>,
                   \<lparr>item_id = ascii ''prd-2'', item_title = ascii ''Instrument 02'',
                     item_category = ascii ''Accessories'', item_qty = Some 3\<rparr>]\<rparr>]\<rparr>"
    apply (simp add: json_after_second_def json_after_first_def json_after_first_eq)
    apply (simp add: json_post_orders_def Let_def order_id_sample_later request_defs order_defs
        example_defs more_defs coercion_defs shiva_def)
    done
  have s2: "sql_after_no_id_second = sql_db1\<lparr>orders_tbl :=
      [\<lparr>or_id = ascii ''DDD-1735689600000'', or_user_id = ascii ''u-alice'',
        or_created_at = ascii ''2025-01-01T00:00:00.000Z'', or_customer = shiva\<rparr>,
       \<lparr>or_id = ascii ''DDD-1735776000000'', or_user_id = ascii ''u-alice'',
        or_created_at = ascii ''2025-01-02T00:00:00.000Z'', or_customer = shiva\<rparr>],
      order_items_tbl :=
      [\<lparr>oi_id = 1, oi_order_id = ascii ''DDD-1735689600000'',
        oi_product_id = [], oi_title = ascii ''Mirror'',
        oi_category = ascii ''Accessories'', oi_qty = Fin 2\<rparr>,
       \<lparr>oi_id = 2, oi_order_id = ascii ''DDD-1735776000000'',
        oi_product_id = ascii ''prd-1'', oi_title = ascii ''Instrument 01'',
        oi_category = ascii ''Accessories'', oi_qty = Fin 0\<rparr>,
       \<lparr>oi_id = 3, oi_order_id = ascii ''DDD-1735776000000'',
        oi_product_id = ascii ''prd-2'', oi_title = ascii ''Instrument 02'',
        oi_category = ascii ''Accessories'', oi_qty = Fin 3\<rparr>],
      item_seq := 3\<rparr>"
    apply (simp add: sql_after_no_id_second_def sql_after_no_id_def sql_after_no_id_eq)
    apply (simp add: sql_post_orders_def Let_def order_id_sample_later request_defs order_defs
        example_defs more_defs coercion_defs shiva_def)
    done
  have a1: "ascii ''sid-1'' \<noteq> []"
    by (simp add: ascii_def)
  have a2: "sessions json_after_second (ascii ''sid-1'') =
     Some \<lparr>session_userId = ascii ''u-alice'',
           session_createdAt = ascii ''2024-12-31T08:00:00.000Z''\<rparr>"
    by (simp add: j2 json_db1_def)
  have a3: "sql_getUserFromSession sql_after_no_id_second (Some (ascii ''sid-1'')) =
      Some (sanitizeUser alice)"
    by (simp add: s2 sql_db1_def sql_getUserFromSession_def alice_def ascii_def)
  have t: "map or_id (orders_tbl sql_after_no_id_second) =
        [ascii ''DDD-1735689600000'', ascii ''DDD-1735776000000'']"
    "map oi_id (order_items_tbl sql_after_no_id_second) = [1, 2, 3]"
    "map oi_product_id (order_items_tbl sql_after_no_id_second) =
        [[], ascii ''prd-1'', ascii ''prd-2'']"
    "map oi_order_id (order_items_tbl sql_after_no_id_second) =
        [ascii ''DDD-1735689600000'', ascii ''DDD-1735776000000'', ascii ''DDD-1735776000000'']"
    by (simp_all add: s2 sql_db1_def)
  have jl: "map ov_id (case body (json_get_orders_me json_after_second
        (Some (ascii ''sid-1''))) of Orders vs \<Rightarrow> vs | _ \<Rightarrow> []) =
      [ascii ''DDD-1735689600000'', ascii ''DDD-1735776000000'']"
    by (simp add: j2 json_get_orders_me_def json_db1_def property_of_def sanitizeOrder_def
        reply_def ascii_def)
  have sl: "sql_get_orders_me sql_after_no_id_second (Some (ascii ''sid-1'')) =
      reply 200 (Orders
        [\<lparr>ov_id = ascii ''DDD-1735776000000'', ov_createdAt = ascii ''2025-01-02T00:00:00.000Z'',
          ov_customer = shiva,
          ov_items = [\<lparr>item_id = ascii ''prd-1'', item_title = ascii ''Instrument 01'',
                         item_category = ascii ''Accessories'', item_qty = Some 0\<rparr>,
                      \<lparr>item_id = ascii ''prd-2'', item_title = ascii ''Instrument 02'',
                         item_category = ascii ''Accessories'', item_qty = Some 3\<rparr>]\<rparr>,
         \<lparr>ov_id = ascii ''DDD-1735689600000'', ov_createdAt = ascii ''2025-01-01T00:00:00.000Z'',
          ov_customer = shiva, ov_items = []\<rparr>])"
    by (simp add: s2 listing_defs sql_getUserFromSession_def sql_db1_def alice_def
        sanitizeUser_def reply_def ascii_def)
  from list_my_orders [OF a1 a2 a3] a2 a3 t jl sl
  show ?thesis by (simp add: reply_def)
qed

text \<open>
  C1 as stated fails: after the same two orders the file variant lists the order of the
  first of January before the order of the second.
\<close>

theorem json_lists_oldest_first:
  "map ov_createdAt (case body (json_get_orders_me json_after_second (Some (ascii ''sid-1''))) of
      Orders vs \<Rightarrow> vs | _ \<Rightarrow> []) =
     [ascii ''2025-01-01T00:00:00.000Z'', ascii ''2025-01-02T00:00:00.000Z'']
   \<and> ascii ''2025-01-01T00:00:00.000Z'' < ascii ''2025-01-02T00:00:00.000Z''"
  apply (simp add: json_after_second_def json_after_first_def json_after_first_eq)
  apply (simp add: json_post_orders_def json_get_orders_me_def Let_def request_defs order_defs
      example_defs more_defs coercion_defs shiva_def)
  done

text \<open>
  In the file variant an order placed is listed as it was returned: \<^verbatim>\<open>GET /orders/me\<close>
  with the same cookie returns what it returned before, followed by the order of the
  201 answer.
\<close>

lemma json_round_trip:
  assumes "json_post_orders B E db c req_body = (r, db1)" and "status r = 201"
  shows "\<exists>v vs. body r = Order v
          \<and> json_get_orders_me db c = reply 200 (Orders vs)
          \<and> json_get_orders_me db1 c = reply 200 (Orders (vs @ [v]))"
proof -
  from json_post_orders_created [OF assms] obtain cust its u where
    u: "json_getUserFromSession db c = Some u"
    and r: "r = reply 201 (Order \<lparr>ov_id = order_id_of B (Date_now E),
                 ov_createdAt = toISOString1 E, ov_customer = cust,
                 ov_items = map JSON_item its\<rparr>)"
    and db1: "db1 = db\<lparr>orders := orders db @
                 [\<lparr>order_id = order_id_of B (Date_now E), order_createdAt = toISOString1 E,
                   order_userId = user_id u, order_customer = cust,
                   order_items = map JSON_item its\<rparr>]\<rparr>"
    by blast
  from u obtain sid where c: "c = Some sid" and ne: "sid \<noteq> []"
    and f: "find (\<lambda>u. Some (user_id u) = userId_of (property_of (sessions db) sid)) (users db)
        = Some u"
    by (auto simp add: json_getUserFromSession_def Let_def split: option.splits if_splits)
  from find_Some_mem [OF f] have i: "Some (user_id u) = userId_of (property_of (sessions db) sid)"
    by simp
  then have p: "property_of (sessions db) sid \<noteq> Absent"
    by auto
  from c ne p i r db1 show ?thesis
    by (simp add: json_get_orders_me_def Let_def reply_def sanitizeOrder_def)
qed

text \<open>
  C2 at a failing input. The one item of the order has no \<^verbatim>\<open>id\<close>, so its product id is
  the empty string. \<^verbatim>\<open>POST /orders\<close> of SQLite answers with the item; \<^verbatim>\<open>GET /orders/me\<close>
  then returns the order without it, since \<^verbatim>\<open>if (row.product_id)\<close> skips the row.
\<close>

theorem item_without_id_lost:
  "body (fst (sql_post_orders sample_builtins E0 sql_db1 (Some (ascii ''sid-1'')) no_id_order)) =
     Order \<lparr>ov_id = ascii ''DDD-1735689600000'',
        ov_createdAt = ascii ''2025-01-01T00:00:00.000Z'', ov_customer = shiva,
        ov_items = [\<lparr>item_id = [], item_title = ascii ''Mirror'',
          item_category = ascii ''Accessories'', item_qty = Some 2\<rparr>]\<rparr>
   \<and> sql_get_orders_me sql_after_no_id (Some (ascii ''sid-1'')) =
     reply 200 (Orders [\<lparr>ov_id = ascii ''DDD-1735689600000'',
        ov_createdAt = ascii ''2025-01-01T00:00:00.000Z'', ov_customer = shiva,
        ov_items = []\<rparr>])"
  apply (simp add: sql_after_no_id_def sql_after_no_id_eq)
  apply (simp add: listing_defs order_defs example_defs coercion_defs shiva_def)
  done

end
